theory Spec2Isabelle
  imports Complex_Main "HOL-Library.Multiset"
begin

section \<open>Data model of script.js\<close>

text \<open>
  The class \<open>NetworkVisualization\<close> of \<open>src/D3js_Project/script.js\<close> is embedded
  function by function. JavaScript numbers that are not counters (coordinates, radii, the
  cooling parameter) are modelled as reals; a coordinate property can also hold
  \<open>undefined\<close> (never assigned) or \<open>null\<close> (cleared), so it has a type of its own.
  Node objects are shared by reference between \<open>data\<close>, \<open>filteredData\<close>, the links and
  the neighbour sets: a node is identified by its index in the array \<open>data.nodes\<close>, which
  plays the role of the store.
\<close>

datatype coord = Undefined | Null | Num real

record 'a raw_node =
  raw_id :: 'a
  raw_group :: "int option"
  raw_degree :: "nat option"

record 'a raw_link =
  source :: 'a
  target :: 'a

record 'a raw_data =
  raw_nodes :: "'a raw_node list"
  raw_links :: "'a raw_link list"

record config =
  width :: real
  height :: real
  chargeStrength :: int
  linkDistance :: int
  maxNodes :: nat
  minNodeRadius :: real
  maxNodeRadius :: real
  simulationAlpha :: real
  simulationDecay :: real

text \<open>The constructor's configuration; the window size is a parameter.\<close>

definition default_config :: "real \<Rightarrow> real \<Rightarrow> config" where
  "default_config w h =
     \<lparr>width = w, height = h - 120, chargeStrength = - 30, linkDistance = 80,
      maxNodes = 2000, minNodeRadius = 2, maxNodeRadius = 6,
      simulationAlpha = 3 / 10, simulationDecay = 2 / 100\<rparr>"

text \<open>
  The values that \<open>Math.random()\<close> delivers for the node created at a given array index:
  the floored group draw and the two unit draws for the position.
\<close>

record draw =
  rnd_group :: int
  rnd_x :: real
  rnd_y :: real

record 'a node =
  n_id :: 'a
  n_group :: int
  n_degree :: nat
  n_neighbors :: "nat set"
  n_x :: coord
  n_y :: coord
  n_fx :: coord
  n_fy :: coord
  n_originalData :: "'a raw_node"
  n_radius :: real

record 'a link =
  l_source :: nat
  l_target :: nat
  l_originalData :: "'a raw_link"

record 'a graph =
  g_nodes :: "'a node list"
  g_links :: "'a link list"

section \<open>preprocessData\<close>

text \<open>\<open>nodeDegrees.get(k) || 0\<close> and the two \<open>nodeDegrees.set\<close> calls of the first loop.\<close>

definition get_or_zero :: "('a \<rightharpoonup> nat) \<Rightarrow> 'a \<Rightarrow> nat" where
  "get_or_zero m k = (case m k of None \<Rightarrow> 0 | Some c \<Rightarrow> c)"

definition bump :: "('a \<rightharpoonup> nat) \<Rightarrow> 'a \<Rightarrow> ('a \<rightharpoonup> nat)" where
  "bump m k = m(k \<mapsto> get_or_zero m k + 1)"

definition nodeDegrees :: "'a raw_link list \<Rightarrow> ('a \<rightharpoonup> nat)" where
  "nodeDegrees links = fold (\<lambda>l m. bump (bump m (source l)) (target l)) links Map.empty"

text \<open>
  The comparator \<open>(a, b) => b.degree - a.degree\<close> orders by descending degree;
  \<open>Array.prototype.sort\<close> is stable, as \<open>sort_key\<close> is.
\<close>

definition degree_key :: "'a raw_node \<Rightarrow> int" where
  "degree_key n = (case raw_degree n of None \<Rightarrow> 0 | Some d \<Rightarrow> - int d)"

definition sortedNodes :: "nat \<Rightarrow> 'a raw_data \<Rightarrow> 'a raw_node list" where
  "sortedNodes mx raw =
     take mx (sort_key degree_key
       (map (\<lambda>n. n\<lparr>raw_degree := Some (get_or_zero (nodeDegrees (raw_links raw)) (raw_id n))\<rparr>)
            (raw_nodes raw)))"

text \<open>The block guarded by \<open>nodes.length > maxNodes\<close>.\<close>

definition truncate_raw :: "nat \<Rightarrow> 'a raw_data \<Rightarrow> 'a raw_data" where
  "truncate_raw mx raw =
     (if length (raw_nodes raw) > mx then
        let selectedNodeIds = set (map raw_id (sortedNodes mx raw))
        in \<lparr>raw_nodes = sortedNodes mx raw,
            raw_links = filter (\<lambda>l. source l \<in> selectedNodeIds \<and> target l \<in> selectedNodeIds)
                          (raw_links raw)\<rparr>
      else raw)"

definition processedNode :: "config \<Rightarrow> (nat \<Rightarrow> draw) \<Rightarrow> nat \<times> 'a raw_node \<Rightarrow> 'a node" where
  "processedNode cfg rnd p =
     (case p of (i, n) \<Rightarrow>
       \<lparr>n_id = raw_id n,
        n_group = (case raw_group n of
                     None \<Rightarrow> rnd_group (rnd i)
                   | Some g \<Rightarrow> if g = 0 then rnd_group (rnd i) else g),
        n_degree = 0,
        n_neighbors = {},
        n_x = Num (rnd_x (rnd i) * width cfg),
        n_y = Num (rnd_y (rnd i) * height cfg),
        n_fx = Undefined,
        n_fy = Undefined,
        n_originalData = n,
        n_radius = 0\<rparr>)"

definition processedNodes :: "config \<Rightarrow> (nat \<Rightarrow> draw) \<Rightarrow> 'a raw_node list \<Rightarrow> 'a node list" where
  "processedNodes cfg rnd ns = map (processedNode cfg rnd) (enumerate 0 ns)"

text \<open>
  \<open>new Map(processedNodes.map(d => [d.id, d]))\<close>: a later entry with the same key
  replaces an earlier one, so an id resolves to the last node that carries it.
\<close>

definition nodeById :: "'a node list \<Rightarrow> ('a \<rightharpoonup> nat)" where
  "nodeById ps = map_of (rev (zip (map n_id ps) [0..<length ps]))"

text \<open>The four mutations of the link loop, in the source's order.\<close>

definition addNeighbor :: "nat \<Rightarrow> nat \<Rightarrow> 'a node list \<Rightarrow> 'a node list" where
  "addNeighbor a b ns = ns[a := (ns ! a)\<lparr>n_neighbors := insert b (n_neighbors (ns ! a))\<rparr>]"

definition incDegree :: "nat \<Rightarrow> 'a node list \<Rightarrow> 'a node list" where
  "incDegree a ns = ns[a := (ns ! a)\<lparr>n_degree := n_degree (ns ! a) + 1\<rparr>]"

definition connect :: "nat \<Rightarrow> nat \<Rightarrow> 'a node list \<Rightarrow> 'a node list" where
  "connect s t ns = incDegree t (incDegree s (addNeighbor t s (addNeighbor s t ns)))"

text \<open>
  \<open>links.map(...).filter(Boolean)\<close>: a link with an unresolved endpoint yields \<open>null\<close>
  and is dropped; the others update the two endpoint objects.
\<close>

fun processLinks :: "('a \<rightharpoonup> nat) \<Rightarrow> 'a node list \<Rightarrow> 'a raw_link list
    \<Rightarrow> 'a node list \<times> 'a link list" where
  "processLinks m ns [] = (ns, [])"
| "processLinks m ns (l # ls) =
     (case m (source l) of
        None \<Rightarrow> processLinks m ns ls
      | Some s \<Rightarrow>
         (case m (target l) of
            None \<Rightarrow> processLinks m ns ls
          | Some t \<Rightarrow>
             (case processLinks m (connect s t ns) ls of
                (ns', out) \<Rightarrow>
                  (ns', \<lparr>l_source = s, l_target = t, l_originalData = l\<rparr> # out))))"

definition nodeRadius :: "config \<Rightarrow> nat \<Rightarrow> real" where
  "nodeRadius cfg d = max (minNodeRadius cfg) (min (maxNodeRadius cfg) (real d / 3))"

definition setRadius :: "config \<Rightarrow> 'a node \<Rightarrow> 'a node" where
  "setRadius cfg n = n\<lparr>n_radius := nodeRadius cfg (n_degree n)\<rparr>"

definition preprocessData :: "config \<Rightarrow> (nat \<Rightarrow> draw) \<Rightarrow> 'a raw_data \<Rightarrow> 'a graph" where
  "preprocessData cfg rnd rawData =
     (let raw = truncate_raw (maxNodes cfg) rawData;
          ps = processedNodes cfg rnd (raw_nodes raw)
      in case processLinks (nodeById ps) ps (raw_links raw) of
           (ns, ls) \<Rightarrow> \<lparr>g_nodes = map (setRadius cfg) ns, g_links = ls\<rparr>)"

section \<open>State of the visualisation\<close>

text \<open>
  The state holds what the operations below read and write: the graph, the visible
  subgraph, the highlighted node, the pause flag, the simulation and the elements of the
  two SVG groups with their classes. The zoom transform, the tooltip, the detail panel, the
  statistics texts, the image exports and the drag handlers are left out.

  \<open>filteredData\<close> is an object with its own \<open>nodes\<close> and \<open>links\<close> arrays whose members
  are the node and link objects of \<open>data\<close>.
\<close>

record 'a subgraph =
  fd_nodes :: "nat list"
  fd_links :: "'a link list"

text \<open>
  What the code sets and reads of the d3 force simulation: the node array, the link array
  and distance of the link force, the strength of the charge force, the cooling parameter
  and whether the internal timer runs (\<open>restart\<close> starts it, \<open>stop\<close> halts it). Ticks are
  not part of the model.
\<close>

record 'a simulation =
  sim_nodes :: "nat list"
  sim_links :: "'a link list"
  sim_charge :: int
  sim_distance :: int
  sim_alpha :: real
  sim_alphaDecay :: real
  sim_running :: bool

text \<open>
  The elements of the two SVG groups: each carries its bound datum and the CSS classes that
  the code toggles with \<open>classed\<close>.
\<close>

record node_elem =
  ne_datum :: nat
  ne_highlighted :: bool
  ne_neighbor :: bool
  ne_hidden :: bool

record 'a link_elem =
  le_datum :: "'a link"
  le_highlighted :: bool
  le_hidden :: bool

record 'a state =
  config :: config
  data :: "'a graph"
  filteredData :: "'a subgraph"
  currentHighlighted :: "nat option"
  isPaused :: bool
  simulation :: "'a simulation"
  nodeGroup :: "node_elem list"
  linkGroup :: "'a link_elem list"

datatype error = TypeError

definition new_node_elem :: "nat \<Rightarrow> node_elem" where
  "new_node_elem i = \<lparr>ne_datum = i, ne_highlighted = False, ne_neighbor = False, ne_hidden = False\<rparr>"

definition new_link_elem :: "'a link \<Rightarrow> 'a link_elem" where
  "new_link_elem l = \<lparr>le_datum = l, le_highlighted = False, le_hidden = False\<rparr>"

text \<open>
  \<open>loadData\<close> (with the file loaded), \<open>createLinks\<close>, \<open>createNodes\<close> and
  \<open>startSimulation\<close>: the state once \<open>init\<close> has run.
\<close>

definition startSimulation :: "config \<Rightarrow> 'a subgraph \<Rightarrow> 'a simulation" where
  "startSimulation cfg fd =
     \<lparr>sim_nodes = fd_nodes fd, sim_links = fd_links fd,
      sim_charge = chargeStrength cfg, sim_distance = linkDistance cfg,
      sim_alpha = simulationAlpha cfg, sim_alphaDecay = simulationDecay cfg,
      sim_running = True\<rparr>"

definition init :: "config \<Rightarrow> (nat \<Rightarrow> draw) \<Rightarrow> 'a raw_data \<Rightarrow> 'a state" where
  "init cfg rnd rawData =
     (let d = preprocessData cfg rnd rawData;
          fd = \<lparr>fd_nodes = [0..<length (g_nodes d)], fd_links = g_links d\<rparr>
      in \<lparr>config = cfg, data = d, filteredData = fd, currentHighlighted = None,
          isPaused = False, simulation = startSimulation cfg fd,
          nodeGroup = map new_node_elem (fd_nodes fd),
          linkGroup = map new_link_elem (fd_links fd)\<rparr>)"

text \<open>
  \<open>selection.data(array).join(enter, update, exit)\<close> without a key function binds by
  index: an existing element keeps its attributes and classes and receives the datum at its
  position, missing elements are appended fresh, surplus elements are removed.
\<close>

definition join_elems :: "('e \<Rightarrow> 'd \<Rightarrow> 'e) \<Rightarrow> ('d \<Rightarrow> 'e) \<Rightarrow> 'e list \<Rightarrow> 'd list \<Rightarrow> 'e list" where
  "join_elems rebind enter es ds =
     map (\<lambda>(e, d). rebind e d) (zip es ds) @ map enter (drop (length es) ds)"

definition updateVisualization :: "'a state \<Rightarrow> 'a state" where
  "updateVisualization st =
     st\<lparr>linkGroup := join_elems (\<lambda>e d. e\<lparr>le_datum := d\<rparr>) new_link_elem
                       (linkGroup st) (fd_links (filteredData st)),
        nodeGroup := join_elems (\<lambda>e d. e\<lparr>ne_datum := d\<rparr>) new_node_elem
                       (nodeGroup st) (fd_nodes (filteredData st)),
        simulation := (simulation st)
          \<lparr>sim_nodes := fd_nodes (filteredData st),
           sim_links := fd_links (filteredData st),
           sim_alpha := 1,
           sim_running := True\<rparr>\<rparr>"

definition degree_of :: "'a state \<Rightarrow> nat \<Rightarrow> nat" where
  "degree_of st i = n_degree (g_nodes (data st) ! i)"

definition filterByDegree :: "int \<Rightarrow> 'a state \<Rightarrow> 'a state" where
  "filterByDegree maxDegree st =
     updateVisualization (st\<lparr>filteredData :=
       \<lparr>fd_nodes = filter (\<lambda>i. int (degree_of st i) \<le> maxDegree) [0..<length (g_nodes (data st))],
        fd_links = filter (\<lambda>l. int (degree_of st (l_source l)) \<le> maxDegree
                              \<and> int (degree_of st (l_target l)) \<le> maxDegree)
                     (g_links (data st))\<rparr>\<rparr>)"

subsection \<open>Highlight and search\<close>

definition clearHighlight :: "'a state \<Rightarrow> 'a state" where
  "clearHighlight st =
     st\<lparr>nodeGroup := map (\<lambda>e. e\<lparr>ne_highlighted := False, ne_neighbor := False\<rparr>) (nodeGroup st),
        linkGroup := map (\<lambda>e. e\<lparr>le_highlighted := False\<rparr>) (linkGroup st),
        currentHighlighted := None\<rparr>"

definition id_of :: "'a state \<Rightarrow> nat \<Rightarrow> 'a" where
  "id_of st i = n_id (g_nodes (data st) ! i)"

definition highlightNode :: "nat \<Rightarrow> 'a state \<Rightarrow> 'a state" where
  "highlightNode node st =
     (let st1 = clearHighlight st;
          ns1 = map (\<lambda>e. if id_of st (ne_datum e) = id_of st node
                          then e\<lparr>ne_highlighted := True\<rparr> else e) (nodeGroup st1);
          ns2 = map (\<lambda>e. if ne_datum e \<in> n_neighbors (g_nodes (data st) ! node)
                          then e\<lparr>ne_neighbor := True\<rparr> else e) ns1;
          ls1 = map (\<lambda>e. if id_of st (l_source (le_datum e)) = id_of st node
                             \<or> id_of st (l_target (le_datum e)) = id_of st node
                          then e\<lparr>le_highlighted := True\<rparr> else e) (linkGroup st1)
      in st1\<lparr>nodeGroup := ns2, linkGroup := ls1, currentHighlighted := Some node\<rparr>)"

datatype search_result = Ignored | NotFound | Found nat

text \<open>
  \<open>searchNode\<close>: the text of the input box is a parameter, and so is \<open>toString\<close> on ids.
  An empty text returns at once; a miss raises the alert.
\<close>

definition searchNode :: "('a \<Rightarrow> string) \<Rightarrow> string \<Rightarrow> 'a state \<Rightarrow> search_result \<times> 'a state" where
  "searchNode toStr searchId st =
     (if searchId = [] then (Ignored, st)
      else case find (\<lambda>i. toStr (id_of st i) = searchId) (fd_nodes (filteredData st)) of
             Some node \<Rightarrow> (Found node, highlightNode node st)
           | None \<Rightarrow> (NotFound, st))"

subsection \<open>Display mode\<close>

definition showAllNodes :: "'a state \<Rightarrow> 'a state" where
  "showAllNodes st =
     st\<lparr>nodeGroup := map (\<lambda>e. e\<lparr>ne_hidden := False\<rparr>) (nodeGroup st),
        linkGroup := map (\<lambda>e. e\<lparr>le_hidden := False\<rparr>) (linkGroup st)\<rparr>"

definition showNeighborsOnly :: "'a state \<Rightarrow> 'a state" where
  "showNeighborsOnly st =
     (case currentHighlighted st of
        None \<Rightarrow> st
      | Some h \<Rightarrow>
          st\<lparr>nodeGroup := map (\<lambda>e. e\<lparr>ne_hidden :=
                 (id_of st (ne_datum e) \<noteq> id_of st h
                  \<and> ne_datum e \<notin> n_neighbors (g_nodes (data st) ! h))\<rparr>) (nodeGroup st),
             linkGroup := map (\<lambda>e. e\<lparr>le_hidden :=
                 (id_of st (l_source (le_datum e)) \<noteq> id_of st h
                  \<and> id_of st (l_target (le_datum e)) \<noteq> id_of st h)\<rparr>) (linkGroup st)\<rparr>)"

text \<open>
  \<open>showHighlightedOnly\<close> passes arrow functions to \<open>classed\<close>, so \<open>this\<close> in
  \<open>d3.select(this)\<close> is the visualisation object and not the element: reading a class of
  that selection calls \<open>getAttribute\<close> on an object that has none. The call therefore
  throws at the first element, before any class is set, and does nothing on empty groups.
\<close>

definition showHighlightedOnly :: "'a state \<Rightarrow> error + 'a state" where
  "showHighlightedOnly st =
     (if nodeGroup st = [] \<and> linkGroup st = [] then Inr st else Inl TypeError)"

definition setDisplayMode :: "string \<Rightarrow> 'a state \<Rightarrow> error + 'a state" where
  "setDisplayMode mode st =
     (if mode = ''all'' then Inr (showAllNodes st)
      else if mode = ''neighbors'' then Inr (showNeighborsOnly st)
      else if mode = ''highlighted'' then showHighlightedOnly st
      else Inr st)"

text \<open>The nodes and links that carry no \<open>hidden\<close> class.\<close>

definition shown_nodes :: "'a state \<Rightarrow> nat set" where
  "shown_nodes st = set (map ne_datum (filter (\<lambda>e. \<not> ne_hidden e) (nodeGroup st)))"

definition shown_links :: "'a state \<Rightarrow> 'a link set" where
  "shown_links st = set (map le_datum (filter (\<lambda>e. \<not> le_hidden e) (linkGroup st)))"

subsection \<open>Layout control\<close>

definition restartSimulation :: "'a state \<Rightarrow> 'a state" where
  "restartSimulation st = st\<lparr>simulation := (simulation st)\<lparr>sim_alpha := 1, sim_running := True\<rparr>\<rparr>"


text \<open>
  \<open>updateForceParameters\<close>: the two \<open>parseInt\<close> results are parameters. The charge and
  link forces are replaced, the link force over \<open>filteredData.links\<close>.
\<close>

definition updateForceParameters :: "int \<Rightarrow> int \<Rightarrow> 'a state \<Rightarrow> 'a state" where
  "updateForceParameters chargeValue linkValue st =
     st\<lparr>simulation := (simulation st)
          \<lparr>sim_charge := chargeValue,
           sim_links := fd_links (filteredData st),
           sim_distance := linkValue,
           sim_alpha := 3 / 10,
           sim_running := True\<rparr>\<rparr>"

subsection \<open>Layout export and import\<close>

record 'a layout_node =
  ln_id :: 'a
  ln_x :: coord
  ln_y :: coord
  ln_fx :: coord
  ln_fy :: coord

record 'a layout =
  lay_nodes :: "'a layout_node list"
  lay_links :: "('a \<times> 'a) list"
  lay_exportTime :: string
  lay_nodeCount :: nat
  lay_linkCount :: nat

definition node_entry :: "'a node \<Rightarrow> 'a layout_node" where
  "node_entry d = \<lparr>ln_id = n_id d, ln_x = n_x d, ln_y = n_y d, ln_fx = n_fx d, ln_fy = n_fy d\<rparr>"

text \<open>The object that \<open>exportLayout\<close> hands to \<open>JSON.stringify\<close>; the clock is a parameter.\<close>

definition exportLayout :: "string \<Rightarrow> 'a state \<Rightarrow> 'a layout" where
  "exportLayout now st =
     \<lparr>lay_nodes = map (\<lambda>i. node_entry (g_nodes (data st) ! i)) (fd_nodes (filteredData st)),
      lay_links = map (\<lambda>l. (id_of st (l_source l), id_of st (l_target l)))
                    (fd_links (filteredData st)),
      lay_exportTime = now,
      lay_nodeCount = length (fd_nodes (filteredData st)),
      lay_linkCount = length (fd_links (filteredData st))\<rparr>"

text \<open>
  What \<open>JSON.parse\<close> can deliver to \<open>applyLayout\<close>, as far as the code looks: the
  value is \<open>null\<close> (reading \<open>.nodes\<close> throws) or has a \<open>nodes\<close> and a \<open>links\<close>
  property to read. \<open>links\<close> is only tested for truthiness; \<open>nodes\<close> is falsy, truthy
  without \<open>forEach\<close>, or an array. An element of the array is \<open>null\<close> (reading \<open>.id\<close>
  throws) or a value whose \<open>id\<close>, \<open>x\<close>, \<open>y\<close>, \<open>fx\<close>, \<open>fy\<close> are read (an absent
  \<open>id\<close> is \<open>None\<close>). The text of the file may also fail to parse.
\<close>

datatype 'a json_entry = JNull | JEntry "'a option" coord coord coord coord

datatype 'a json_nodes = NodesMissing | NodesNotArray | NodesArray "'a json_entry list"

datatype 'a layout_value = LayoutNull | Layout "'a json_nodes" bool

datatype 'a file_text = Unparsable | Parses "'a layout_value"

definition place :: "coord \<Rightarrow> coord \<Rightarrow> coord \<Rightarrow> coord \<Rightarrow> 'a node \<Rightarrow> 'a node" where
  "place px py pfx pfy d = d\<lparr>n_x := px, n_y := py, n_fx := pfx, n_fy := pfy\<rparr>"

definition moveNode :: "nat \<Rightarrow> coord \<Rightarrow> coord \<Rightarrow> coord \<Rightarrow> coord \<Rightarrow> 'a state \<Rightarrow> 'a state" where
  "moveNode i px py pfx pfy st =
     st\<lparr>data := (data st)\<lparr>g_nodes := (g_nodes (data st))[i := place px py pfx pfy (g_nodes (data st) ! i)]\<rparr>\<rparr>"

text \<open>
  The \<open>forEach\<close> of \<open>applyLayout\<close>: an exception leaves the loop with the nodes moved so
  far. \<open>layoutNode.id\<close> is read inside the callback of \<open>find\<close>, which runs once per node
  of \<open>filteredData.nodes\<close>: a \<open>null\<close> entry throws at the first node, and is passed over
  when there is no node.
\<close>

fun applyEntries :: "'a json_entry list \<Rightarrow> 'a state \<Rightarrow> error option \<times> 'a state" where
  "applyEntries [] st = (None, st)"
| "applyEntries (JNull # es) st =
     (if fd_nodes (filteredData st) = [] then applyEntries es st else (Some TypeError, st))"
| "applyEntries (JEntry k px py pfx pfy # es) st =
     (case find (\<lambda>i. Some (id_of st i) = k) (fd_nodes (filteredData st)) of
        None \<Rightarrow> applyEntries es st
      | Some i \<Rightarrow> applyEntries es (moveNode i px py pfx pfy st))"

fun applyLayout :: "'a layout_value \<Rightarrow> 'a state \<Rightarrow> error option \<times> 'a state" where
  "applyLayout LayoutNull st = (Some TypeError, st)"
| "applyLayout (Layout NodesMissing lk) st = (None, st)"
| "applyLayout (Layout NodesNotArray lk) st = (if lk then (Some TypeError, st) else (None, st))"
| "applyLayout (Layout (NodesArray es) lk) st =
     (if lk then
        (case applyEntries es st of
           (Some e, st') \<Rightarrow> (Some e, st')
         | (None, st') \<Rightarrow>
             (None, st'\<lparr>simulation := (simulation st')\<lparr>sim_alpha := 1 / 10, sim_running := True\<rparr>\<rparr>))
      else (None, st))"

text \<open>
  \<open>importLayout\<close> with the reader's callback run at once: no file returns silently; a
  parse failure or an exception out of \<open>applyLayout\<close> is caught and raises the alert,
  which is the first component of the result.
\<close>

definition importLayout :: "'a file_text option \<Rightarrow> 'a state \<Rightarrow> bool \<times> 'a state" where
  "importLayout file st =
     (case file of
        None \<Rightarrow> (False, st)
      | Some Unparsable \<Rightarrow> (True, st)
      | Some (Parses layout) \<Rightarrow> (case applyLayout layout st of (r, st') \<Rightarrow> (r \<noteq> None, st')))"

section \<open>JavaScript's decimal \<open>toString\<close> on integer ids\<close>

function string_of_nat :: "nat \<Rightarrow> string" where
  "string_of_nat n =
     (if n < 10 then [''0123456789'' ! n]
      else string_of_nat (n div 10) @ [''0123456789'' ! (n mod 10)])"
  by pat_completeness auto
termination
  by (relation "measure (\<lambda>n. n)") auto

definition toString :: "int \<Rightarrow> string" where
  "toString k = (if k < 0 then CHR ''-'' # string_of_nat (nat (- k)) else string_of_nat (nat k))"

section \<open>The example graph\<close>

definition no_draw :: "nat \<Rightarrow> draw" where
  "no_draw i = \<lparr>rnd_group = 0, rnd_x = 0, rnd_y = 0\<rparr>"

definition raw_node_of :: "int \<Rightarrow> int raw_node" where
  "raw_node_of k = \<lparr>raw_id = k, raw_group = None, raw_degree = None\<rparr>"

definition raw_link_of :: "int \<times> int \<Rightarrow> int raw_link" where
  "raw_link_of p = \<lparr>source = fst p, target = snd p\<rparr>"

definition example_raw :: "int raw_data" where
  "example_raw = \<lparr>raw_nodes = map raw_node_of [1, 2, 3, 4, 5],
                  raw_links = map raw_link_of [(1, 2), (1, 3), (1, 4), (2, 3)]\<rparr>"

definition example_config :: config where
  "example_config = (default_config 800 720)\<lparr>maxNodes := 5\<rparr>"

definition small_config :: config where
  "small_config = (default_config 800 720)\<lparr>maxNodes := 3\<rparr>"

definition example_node :: "int \<Rightarrow> nat \<Rightarrow> nat set \<Rightarrow> int node" where
  "example_node k d nb =
     \<lparr>n_id = k, n_group = 0, n_degree = d, n_neighbors = nb, n_x = Num 0, n_y = Num 0,
      n_fx = Undefined, n_fy = Undefined, n_originalData = raw_node_of k, n_radius = 2\<rparr>"

definition example_link :: "nat \<Rightarrow> nat \<Rightarrow> int link" where
  "example_link s t =
     \<lparr>l_source = s, l_target = t, l_originalData = raw_link_of (int s + 1, int t + 1)\<rparr>"

definition example_graph :: "int graph" where
  "example_graph =
     \<lparr>g_nodes = [example_node 1 3 {1, 2, 3}, example_node 2 2 {0, 2}, example_node 3 2 {0, 1},
                 example_node 4 1 {0}, example_node 5 0 {}],
      g_links = [example_link 0 1, example_link 0 2, example_link 0 3, example_link 1 2]\<rparr>"

text \<open>
  Two nodes and two links, one to an id that no node carries and one from the second node
  to itself, with room for one node.
\<close>

definition tie_raw :: "int raw_data" where
  "tie_raw = \<lparr>raw_nodes = [raw_node_of 1, raw_node_of 2],
              raw_links = [raw_link_of (1, 9), raw_link_of (2, 2)]\<rparr>"

definition one_config :: config where
  "one_config = (default_config 800 720)\<lparr>maxNodes := 1\<rparr>"

text \<open>A single link from a node to itself.\<close>

definition loop_raw :: "int raw_data" where
  "loop_raw = \<lparr>raw_nodes = [raw_node_of 1], raw_links = [raw_link_of (1, 1)]\<rparr>"

section \<open>Notions used to state the properties\<close>

text \<open>
  The number of link ends at an id in the raw link list, the raw nodes annotated with that
  number as \<open>preprocessData\<close> annotates them, and the rank a raw node is sorted by.
\<close>

definition link_ends :: "'a raw_link list \<Rightarrow> 'a \<Rightarrow> nat" where
  "link_ends links k = length (filter (\<lambda>l. source l = k) links) + length (filter (\<lambda>l. target l = k) links)"

definition ranked :: "'a raw_data \<Rightarrow> 'a raw_node list" where
  "ranked raw = map (\<lambda>n. n\<lparr>raw_degree := Some (link_ends (raw_links raw) (raw_id n))\<rparr>) (raw_nodes raw)"

definition rank_of :: "'a raw_data \<Rightarrow> 'a raw_node \<Rightarrow> nat" where
  "rank_of raw n = link_ends (raw_links raw) (raw_id n)"

definition touches :: "'a \<Rightarrow> 'a raw_link \<Rightarrow> bool" where
  "touches k l = (source l = k \<or> target l = k)"

definition incident :: "nat \<Rightarrow> 'a link \<Rightarrow> bool" where
  "incident i e = (l_source e = i \<or> l_target e = i)"

definition ends_at :: "'a link list \<Rightarrow> nat \<Rightarrow> nat" where
  "ends_at ls i = length (filter (\<lambda>e. l_source e = i) ls) + length (filter (\<lambda>e. l_target e = i) ls)"

definition others :: "'a link list \<Rightarrow> nat \<Rightarrow> nat set" where
  "others ls i = l_target ` {e \<in> set ls. l_source e = i} \<union> l_source ` {e \<in> set ls. l_target e = i}"

definition link_pair :: "'a raw_link \<Rightarrow> 'a \<times> 'a" where
  "link_pair l = (source l, target l)"

definition link_joins :: "'a raw_link \<Rightarrow> 'a set" where
  "link_joins l = {source l, target l}"

text \<open>Every link of a graph points into its node array; the pair of ids a link joins.\<close>

definition links_closed :: "'a graph \<Rightarrow> bool" where
  "links_closed g = (\<forall>l \<in> set (g_links g). l_source l < length (g_nodes g) \<and> l_target l < length (g_nodes g))"

definition link_ids :: "'a state \<Rightarrow> 'a link \<Rightarrow> 'a \<times> 'a" where
  "link_ids st l = (id_of st (l_source l), id_of st (l_target l))"

text \<open>The example after the degree threshold 2, and then a search for node 2.\<close>

definition filtered_example :: "int state" where
  "filtered_example = filterByDegree 2 (init example_config no_draw example_raw)"

definition focused_example :: "int state" where
  "focused_example = snd (searchNode toString ''2'' filtered_example)"

text \<open>The full example after a search for node 1, then paused.\<close>

definition searched_example :: "int state" where
  "searched_example = snd (searchNode toString ''1'' (init example_config no_draw example_raw))"


text \<open>An import entry that is \<open>null\<close> or names a visible node; the other entries name no node.\<close>

definition names_visible :: "'a state \<Rightarrow> 'a json_entry \<Rightarrow> bool" where
  "names_visible st e =
     (case e of
        JNull \<Rightarrow> True
      | JEntry k px py pfx pfy \<Rightarrow> k \<in> set (map (\<lambda>i. Some (id_of st i)) (fd_nodes (filteredData st))))"

text \<open>The example with every node filtered out.\<close>

definition empty_example :: "int state" where
  "empty_example = filterByDegree (- 1) (init example_config no_draw example_raw)"

text \<open>A payload whose only entry is \<open>null\<close>.\<close>

definition null_payload :: "int file_text" where
  "null_payload = Parses (Layout (NodesArray [JNull]) True)"

text \<open>A payload whose first entry moves node 1 and whose second entry is \<open>null\<close>.\<close>

definition broken_payload :: "int file_text" where
  "broken_payload =
     Parses (Layout (NodesArray [JEntry (Some 1) (Num 10) (Num 20) Null Null, JNull]) True)"

section \<open>Evaluation of the example\<close>

lemmas pp_simps = preprocessData_def truncate_raw_def sortedNodes_def processedNodes_def
  processedNode_def nodeById_def connect_def addNeighbor_def incDegree_def setRadius_def
  nodeRadius_def example_raw_def raw_node_of_def raw_link_of_def default_config_def
  no_draw_def Let_def nodeDegrees_def bump_def get_or_zero_def degree_key_def
  enumerate_eq_zip example_config_def

lemma preprocess_example: "preprocessData example_config no_draw example_raw = example_graph"
  by (simp add: pp_simps example_graph_def example_node_def example_link_def insert_commute
      numeral_2_eq_2 numeral_3_eq_3)

section \<open>Radius\<close>

lemma preprocessData_radius:
  "n \<in> set (g_nodes (preprocessData cfg rnd raw)) \<Longrightarrow> n_radius n = nodeRadius cfg (n_degree n)"
  by (auto simp: preprocessData_def Let_def setRadius_def split: prod.splits)

lemma nodeRadius_mono: "d \<le> d' \<Longrightarrow> nodeRadius cfg d \<le> nodeRadius cfg d'"
  unfolding nodeRadius_def by (intro max.mono min.mono order_refl divide_right_mono) simp_all

text \<open>
  C7. Every node of the built graph has radius \<open>degree / 3\<close> clamped by
  \<open>Math.max(minNodeRadius, Math.min(maxNodeRadius, _))\<close>, taken from the degree the node
  has in the built graph; with \<open>minNodeRadius \<le> maxNodeRadius\<close> the radius lies between
  the two bounds, and a node of no smaller degree has no smaller radius.
\<close>

theorem radius_clamped:
  assumes "minNodeRadius cfg \<le> maxNodeRadius cfg"
    and "n \<in> set (g_nodes (preprocessData cfg rnd raw))"
    and "n' \<in> set (g_nodes (preprocessData cfg rnd raw))"
  shows "n_radius n = max (minNodeRadius cfg) (min (maxNodeRadius cfg) (real (n_degree n) / 3))
       \<and> minNodeRadius cfg \<le> n_radius n \<and> n_radius n \<le> maxNodeRadius cfg
       \<and> (n_degree n \<le> n_degree n' \<longrightarrow> n_radius n \<le> n_radius n')"
proof -
  have r: "n_radius n = nodeRadius cfg (n_degree n)" "n_radius n' = nodeRadius cfg (n_degree n')"
    using assms(2,3) by (simp_all add: preprocessData_radius)
  have "minNodeRadius cfg \<le> nodeRadius cfg (n_degree n)"
    by (simp add: nodeRadius_def)
  moreover have "nodeRadius cfg (n_degree n) \<le> maxNodeRadius cfg"
    using assms(1) by (simp add: nodeRadius_def)
  moreover have "n_degree n \<le> n_degree n' \<longrightarrow> nodeRadius cfg (n_degree n) \<le> nodeRadius cfg (n_degree n')"
    by (simp add: nodeRadius_mono)
  ultimately show ?thesis
    using r by (simp add: nodeRadius_def)
qed

theorem radius_clamped_witness:
  "minNodeRadius example_config \<le> maxNodeRadius example_config
   \<and> example_node 4 1 {0} \<in> set (g_nodes (preprocessData example_config no_draw example_raw))
   \<and> example_node 1 3 {1, 2, 3} \<in> set (g_nodes (preprocessData example_config no_draw example_raw))
   \<and> n_radius (example_node 4 1 {0}) = 2
   \<and> n_radius (example_node 4 1 {0}) \<le> n_radius (example_node 1 3 {1, 2, 3})"
proof -
  have a: "minNodeRadius example_config \<le> maxNodeRadius example_config"
    by (simp add: example_config_def default_config_def)
  have b: "example_node 4 1 {0} \<in> set (g_nodes (preprocessData example_config no_draw example_raw))"
    by (simp add: preprocess_example example_graph_def)
  have c: "example_node 1 3 {1, 2, 3} \<in> set (g_nodes (preprocessData example_config no_draw example_raw))"
    by (simp add: preprocess_example example_graph_def)
  show ?thesis
    using a b c radius_clamped [OF a b c]
    by (simp add: example_node_def example_config_def default_config_def)
qed

section \<open>Truncation, degrees and neighbours\<close>

lemma get_or_zero_bump: "get_or_zero (bump m a) k = get_or_zero m k + (if a = k then 1 else 0)"
  by (simp add: get_or_zero_def bump_def)

lemma get_or_zero_fold:
  "get_or_zero (fold (\<lambda>l m. bump (bump m (source l)) (target l)) links m) k
     = get_or_zero m k + link_ends links k"
proof (induction links arbitrary: m)
  case Nil
  show ?case by (simp add: link_ends_def)
next
  case (Cons l links)
  have "link_ends (l # links) k
          = (if source l = k then 1 else 0) + (if target l = k then 1 else 0) + link_ends links k"
    by (simp add: link_ends_def)
  then show ?case
    by (simp add: Cons.IH get_or_zero_bump)
qed

lemma nodeDegrees_link_ends: "get_or_zero (nodeDegrees links) k = link_ends links k"
  by (simp add: nodeDegrees_def get_or_zero_fold) (simp add: get_or_zero_def)

lemma sortedNodes_ranked: "sortedNodes mx raw = take mx (sort_key degree_key (ranked raw))"
  by (simp add: sortedNodes_def ranked_def nodeDegrees_link_ends)

lemma degree_key_ranked:
  "n \<in> set (ranked raw) \<Longrightarrow> degree_key n = - int (link_ends (raw_links raw) (raw_id n))"
  by (auto simp: ranked_def degree_key_def)

lemma map_list_update_same:
  assumes "f y = f (xs ! i)"
  shows "map f (xs[i := y]) = map f xs"
proof (cases "i < length xs")
  case True
  with assms show ?thesis by (simp add: map_update list_update_same_conv)
next
  case False
  then have "length xs \<le> i" by simp
  then show ?thesis by (simp add: list_update_beyond)
qed

lemma connect_length [simp]: "length (connect s t ns) = length ns"
  by (simp add: connect_def addNeighbor_def incDegree_def)

lemma connect_ids: "map n_id (connect s t ns) = map n_id ns"
  by (simp add: connect_def addNeighbor_def incDegree_def map_list_update_same)

lemma connect_orig: "map n_originalData (connect s t ns) = map n_originalData ns"
  by (simp add: connect_def addNeighbor_def incDegree_def map_list_update_same)

lemma processLinks_frame:
  "processLinks m ns ls = (ns', out) \<Longrightarrow>
     length ns' = length ns \<and> map n_id ns' = map n_id ns
     \<and> map n_originalData ns' = map n_originalData ns"
proof (induction ls arbitrary: ns ns' out)
  case Nil
  then show ?case by simp
next
  case (Cons l ls)
  then show ?case
    by (auto split: option.splits prod.splits simp: connect_ids connect_orig)
qed

lemma processLinks_orig:
  "processLinks m ns ls = (ns', out) \<Longrightarrow>
     map l_originalData out = filter (\<lambda>l. m (source l) \<noteq> None \<and> m (target l) \<noteq> None) ls"
proof (induction ls arbitrary: ns ns' out)
  case Nil
  then show ?case by simp
next
  case (Cons l ls)
  then show ?case
    by (auto split: option.splits prod.splits)
qed

lemma processLinks_resolved:
  "processLinks m ns ls = (ns', out) \<Longrightarrow> e \<in> set out \<Longrightarrow>
     m (source (l_originalData e)) = Some (l_source e) \<and> m (target (l_originalData e)) = Some (l_target e)"
proof (induction ls arbitrary: ns ns' out)
  case Nil
  then show ?case by simp
next
  case (Cons l ls)
  then show ?case
    by (auto split: option.splits prod.splits)
qed

lemma nodeById_Some: "nodeById ps k = Some i \<Longrightarrow> i < length ps \<and> n_id (ps ! i) = k"
proof -
  assume "nodeById ps k = Some i"
  then have "(k, i) \<in> set (zip (map n_id ps) [0..<length ps])"
    unfolding nodeById_def by (metis map_of_SomeD set_rev)
  then show ?thesis
    by (auto simp: set_zip)
qed

lemma nodeById_None: "nodeById ps k = None \<longleftrightarrow> k \<notin> n_id ` set ps"
proof -
  have "fst ` set (zip (map n_id ps) [0..<length ps]) = set (map fst (zip (map n_id ps) [0..<length ps]))"
    by (simp only: set_map)
  also have "\<dots> = n_id ` set ps"
    by simp
  finally show ?thesis
    by (simp add: nodeById_def map_of_eq_None_iff)
qed

lemma processedNodes_ids: "map n_id (processedNodes cfg rnd ns) = map raw_id ns"
proof -
  have "map n_id (processedNodes cfg rnd ns) = map (\<lambda>p. raw_id (snd p)) (zip [0..<length ns] ns)"
    by (simp add: processedNodes_def processedNode_def enumerate_eq_zip split_def)
  also have "\<dots> = map raw_id (map snd (zip [0..<length ns] ns))"
    by (simp only: map_map comp_def)
  finally show ?thesis by simp
qed

lemma processedNodes_orig: "map n_originalData (processedNodes cfg rnd ns) = ns"
proof -
  have "map n_originalData (processedNodes cfg rnd ns) = map snd (zip [0..<length ns] ns)"
    by (simp add: processedNodes_def processedNode_def enumerate_eq_zip split_def comp_def)
  then show ?thesis by simp
qed

lemma preprocessData_cases:
  assumes "raw' = truncate_raw (maxNodes cfg) raw" and "ps = processedNodes cfg rnd (raw_nodes raw')"
  obtains ns ls where "processLinks (nodeById ps) ps (raw_links raw') = (ns, ls)"
    and "g_nodes (preprocessData cfg rnd raw) = map (setRadius cfg) ns"
    and "g_links (preprocessData cfg rnd raw) = ls"
proof -
  obtain ns ls where p: "processLinks (nodeById ps) ps (raw_links raw') = (ns, ls)"
    by (cases "processLinks (nodeById ps) ps (raw_links raw')")
  show thesis
  proof (rule that [OF p])
    show "g_nodes (preprocessData cfg rnd raw) = map (setRadius cfg) ns"
      using p assms by (simp add: preprocessData_def Let_def)
    show "g_links (preprocessData cfg rnd raw) = ls"
      using p assms by (simp add: preprocessData_def Let_def)
  qed
qed

lemma setRadius_frame:
  "n_id \<circ> setRadius cfg = n_id"
  "n_originalData \<circ> setRadius cfg = n_originalData"
  "n_degree \<circ> setRadius cfg = n_degree"
  "n_neighbors \<circ> setRadius cfg = n_neighbors"
  by (simp_all add: setRadius_def fun_eq_iff)

text \<open>Ids and original data of the built nodes are those of the (possibly truncated) raw nodes.\<close>

lemma preprocessData_ids:
  "map n_id (g_nodes (preprocessData cfg rnd raw)) = map raw_id (raw_nodes (truncate_raw (maxNodes cfg) raw))"
proof -
  define raw' where "raw' = truncate_raw (maxNodes cfg) raw"
  define ps where "ps = processedNodes cfg rnd (raw_nodes raw')"
  from preprocessData_cases [OF raw'_def ps_def] obtain ns ls
    where p: "processLinks (nodeById ps) ps (raw_links raw') = (ns, ls)"
      and n: "g_nodes (preprocessData cfg rnd raw) = map (setRadius cfg) ns" by blast
  have "map n_id ns = map n_id ps"
    using processLinks_frame [OF p] by simp
  then show ?thesis
    by (simp add: n setRadius_frame ps_def processedNodes_ids raw'_def)
qed

lemma preprocessData_originalData:
  "map n_originalData (g_nodes (preprocessData cfg rnd raw)) = raw_nodes (truncate_raw (maxNodes cfg) raw)"
proof -
  define raw' where "raw' = truncate_raw (maxNodes cfg) raw"
  define ps where "ps = processedNodes cfg rnd (raw_nodes raw')"
  from preprocessData_cases [OF raw'_def ps_def] obtain ns ls
    where p: "processLinks (nodeById ps) ps (raw_links raw') = (ns, ls)"
      and n: "g_nodes (preprocessData cfg rnd raw) = map (setRadius cfg) ns" by blast
  have "map n_originalData ns = map n_originalData ps"
    using processLinks_frame [OF p] by simp
  then show ?thesis
    by (simp add: n setRadius_frame ps_def processedNodes_orig raw'_def)
qed

lemma preprocessData_length:
  "length (g_nodes (preprocessData cfg rnd raw)) = length (raw_nodes (truncate_raw (maxNodes cfg) raw))"
  using arg_cong [OF preprocessData_originalData [of cfg rnd raw], of length] by simp

text \<open>Every built link points at built nodes, the ones its raw endpoints resolve to.\<close>

lemma preprocessData_link_ends:
  assumes "e \<in> set (g_links (preprocessData cfg rnd raw))"
  shows "l_source e < length (g_nodes (preprocessData cfg rnd raw))
       \<and> l_target e < length (g_nodes (preprocessData cfg rnd raw))
       \<and> n_id (g_nodes (preprocessData cfg rnd raw) ! l_source e) = source (l_originalData e)
       \<and> n_id (g_nodes (preprocessData cfg rnd raw) ! l_target e) = target (l_originalData e)"
proof -
  define raw' where "raw' = truncate_raw (maxNodes cfg) raw"
  define ps where "ps = processedNodes cfg rnd (raw_nodes raw')"
  from preprocessData_cases [OF raw'_def ps_def] obtain ns ls
    where p: "processLinks (nodeById ps) ps (raw_links raw') = (ns, ls)"
      and n: "g_nodes (preprocessData cfg rnd raw) = map (setRadius cfg) ns"
      and l: "g_links (preprocessData cfg rnd raw) = ls" by blast
  let ?G = "g_nodes (preprocessData cfg rnd raw)"
  have len: "length ?G = length ps" and ids: "map n_id ?G = map n_id ps"
    using processLinks_frame [OF p] by (simp_all add: n setRadius_frame)
  have nth_id: "n_id (?G ! i) = n_id (ps ! i)" if "i < length ps" for i
    using that len arg_cong [OF ids, of "\<lambda>xs. xs ! i"] by simp
  from assms l have "e \<in> set ls" by simp
  from processLinks_resolved [OF p this]
  have s: "nodeById ps (source (l_originalData e)) = Some (l_source e)"
    and t: "nodeById ps (target (l_originalData e)) = Some (l_target e)" by simp_all
  from nodeById_Some [OF s] nodeById_Some [OF t] show ?thesis
    by (simp add: len nth_id)
qed

lemma preprocessData_links:
  "map l_originalData (g_links (preprocessData cfg rnd raw))
     = filter (\<lambda>l. source l \<in> n_id ` set (g_nodes (preprocessData cfg rnd raw))
                  \<and> target l \<in> n_id ` set (g_nodes (preprocessData cfg rnd raw)))
         (raw_links (truncate_raw (maxNodes cfg) raw))"
proof -
  define raw' where "raw' = truncate_raw (maxNodes cfg) raw"
  define ps where "ps = processedNodes cfg rnd (raw_nodes raw')"
  from preprocessData_cases [OF raw'_def ps_def] obtain ns ls
    where p: "processLinks (nodeById ps) ps (raw_links raw') = (ns, ls)"
      and n: "g_nodes (preprocessData cfg rnd raw) = map (setRadius cfg) ns"
      and l: "g_links (preprocessData cfg rnd raw) = ls" by blast
  have "map n_id (g_nodes (preprocessData cfg rnd raw)) = map n_id ps"
    using processLinks_frame [OF p] by (simp add: n setRadius_frame)
  then have "set (map n_id (g_nodes (preprocessData cfg rnd raw))) = set (map n_id ps)"
    by simp
  then have ids: "n_id ` set (g_nodes (preprocessData cfg rnd raw)) = n_id ` set ps"
    by (simp only: set_map)
  show ?thesis
    using processLinks_orig [OF p] by (simp add: l ids nodeById_None raw'_def)
qed

lemma truncate_raw_over:
  assumes "mx < length (raw_nodes raw)"
  shows "raw_nodes (truncate_raw mx raw) = sortedNodes mx raw"
    and "raw_links (truncate_raw mx raw)
           = filter (\<lambda>l. source l \<in> raw_id ` set (sortedNodes mx raw)
                        \<and> target l \<in> raw_id ` set (sortedNodes mx raw)) (raw_links raw)"
  using assms by (simp_all add: truncate_raw_def Let_def)

lemma sorted_ranked:
  "sorted_wrt (\<lambda>a b. rank_of raw b \<le> rank_of raw a) (sort_key degree_key (ranked raw))"
proof -
  have "sorted (map degree_key (sort_key degree_key (ranked raw)))"
    by (rule sorted_sort_key)
  then have "sorted_wrt (\<lambda>a b. degree_key a \<le> degree_key b) (sort_key degree_key (ranked raw))"
    by (simp add: sorted_map)
  then show ?thesis
  proof (rule sorted_wrt_mono_rel [rotated])
    fix a b
    assume "a \<in> set (sort_key degree_key (ranked raw))" "b \<in> set (sort_key degree_key (ranked raw))"
      and "degree_key a \<le> degree_key b"
    then show "rank_of raw b \<le> rank_of raw a"
      by (simp add: degree_key_ranked rank_of_def)
  qed
qed

lemma stable_ranked:
  "filter (\<lambda>n. rank_of raw n = k) (sort_key degree_key (ranked raw))
     = filter (\<lambda>n. rank_of raw n = k) (ranked raw)"
proof -
  have eq: "(rank_of raw n = k) = (degree_key n = - int k)" if "n \<in> set (ranked raw)" for n
    using that by (auto simp: degree_key_ranked rank_of_def)
  have "filter (\<lambda>n. rank_of raw n = k) (sort_key degree_key (ranked raw))
          = filter (\<lambda>n. degree_key n = - int k) (sort_key degree_key (ranked raw))"
    by (rule filter_cong) (simp_all add: eq)
  also have "\<dots> = filter (\<lambda>n. degree_key n = - int k) (ranked raw)"
    by (rule sort_key_stable)
  also have "\<dots> = filter (\<lambda>n. rank_of raw n = k) (ranked raw)"
    by (rule filter_cong) (simp_all add: eq)
  finally show ?thesis .
qed

text \<open>
  C1, as the code has it. When the raw graph has more nodes than \<open>maxNodes\<close>, the built
  graph has exactly \<open>maxNodes\<close> nodes. The counter that \<open>nodeDegrees\<close> holds for an id,
  whether or not a raw node carries it, is the number of raw link ends at that id: the
  number of raw links it is the source of plus the number it is the target of, so a link
  from an id to itself adds two. The built nodes are the
  first \<open>maxNodes\<close> of the raw nodes arranged by descending rank, where the rank of a
  node is the counter of its id and nodes of equal rank keep their input order: together
  with some remainder they form a rearrangement of the raw nodes that is sorted by
  descending rank and that agrees with the input on every class of equal rank. The built links are the raw links whose two ends are ids of built nodes,
  and each built link points at built nodes carrying those ids.
\<close>

theorem truncation_top_by_degree:
  assumes "maxNodes cfg < length (raw_nodes raw)"
  shows "length (g_nodes (preprocessData cfg rnd raw)) = maxNodes cfg
    \<and> get_or_zero (nodeDegrees (raw_links raw)) k = link_ends (raw_links raw) k
    \<and> map n_id (g_nodes (preprocessData cfg rnd raw))
        = map raw_id (map n_originalData (g_nodes (preprocessData cfg rnd raw)))
    \<and> (\<exists>rest.
          mset (map n_originalData (g_nodes (preprocessData cfg rnd raw)) @ rest) = mset (ranked raw)
        \<and> sorted_wrt (\<lambda>a b. rank_of raw b \<le> rank_of raw a)
            (map n_originalData (g_nodes (preprocessData cfg rnd raw)) @ rest)
        \<and> (\<forall>k. filter (\<lambda>n. rank_of raw n = k)
                  (map n_originalData (g_nodes (preprocessData cfg rnd raw)) @ rest)
                = filter (\<lambda>n. rank_of raw n = k) (ranked raw)))
    \<and> map l_originalData (g_links (preprocessData cfg rnd raw))
        = filter (\<lambda>l. source l \<in> n_id ` set (g_nodes (preprocessData cfg rnd raw))
                     \<and> target l \<in> n_id ` set (g_nodes (preprocessData cfg rnd raw)))
            (raw_links raw)
    \<and> (\<forall>e \<in> set (g_links (preprocessData cfg rnd raw)).
          l_source e < length (g_nodes (preprocessData cfg rnd raw))
        \<and> l_target e < length (g_nodes (preprocessData cfg rnd raw))
        \<and> n_id (g_nodes (preprocessData cfg rnd raw) ! l_source e) = source (l_originalData e)
        \<and> n_id (g_nodes (preprocessData cfg rnd raw) ! l_target e) = target (l_originalData e))"
proof -
  let ?G = "preprocessData cfg rnd raw"
  let ?S = "sort_key degree_key (ranked raw)"
  have orig: "map n_originalData (g_nodes ?G) = take (maxNodes cfg) ?S"
    by (simp add: preprocessData_originalData truncate_raw_over [OF assms] sortedNodes_ranked)
  have "length ?S = length (raw_nodes raw)"
    by (simp add: ranked_def)
  then have c1: "length (g_nodes ?G) = maxNodes cfg"
    using assms arg_cong [OF orig, of length] by simp
  have c2: "map n_id (g_nodes ?G) = map raw_id (map n_originalData (g_nodes ?G))"
    by (simp add: preprocessData_ids preprocessData_originalData)
  have split: "map n_originalData (g_nodes ?G) @ drop (maxNodes cfg) ?S = ?S"
    by (simp add: orig)
  have c3: "\<exists>rest.
          mset (map n_originalData (g_nodes ?G) @ rest) = mset (ranked raw)
        \<and> sorted_wrt (\<lambda>a b. rank_of raw b \<le> rank_of raw a) (map n_originalData (g_nodes ?G) @ rest)
        \<and> (\<forall>k. filter (\<lambda>n. rank_of raw n = k) (map n_originalData (g_nodes ?G) @ rest)
                = filter (\<lambda>n. rank_of raw n = k) (ranked raw))"
  proof (intro exI [of _ "drop (maxNodes cfg) ?S"] conjI allI)
    show "mset (map n_originalData (g_nodes ?G) @ drop (maxNodes cfg) ?S) = mset (ranked raw)"
      by (simp only: split mset_sort)
    show "sorted_wrt (\<lambda>a b. rank_of raw b \<le> rank_of raw a)
            (map n_originalData (g_nodes ?G) @ drop (maxNodes cfg) ?S)"
      by (simp only: split sorted_ranked)
    show "filter (\<lambda>n. rank_of raw n = k) (map n_originalData (g_nodes ?G) @ drop (maxNodes cfg) ?S)
            = filter (\<lambda>n. rank_of raw n = k) (ranked raw)" for k
      by (simp only: split stable_ranked)
  qed
  have "raw_id ` set (sortedNodes (maxNodes cfg) raw) = set (map raw_id (raw_nodes (truncate_raw (maxNodes cfg) raw)))"
    by (simp add: truncate_raw_over [OF assms])
  also have "\<dots> = set (map n_id (g_nodes ?G))"
    by (simp only: preprocessData_ids)
  finally have sel: "raw_id ` set (sortedNodes (maxNodes cfg) raw) = n_id ` set (g_nodes ?G)"
    by simp
  have c4: "map l_originalData (g_links ?G)
        = filter (\<lambda>l. source l \<in> n_id ` set (g_nodes ?G) \<and> target l \<in> n_id ` set (g_nodes ?G))
            (raw_links raw)"
    by (simp add: preprocessData_links truncate_raw_over(2) [OF assms] sel)
  have c5: "\<forall>e \<in> set (g_links ?G).
          l_source e < length (g_nodes ?G) \<and> l_target e < length (g_nodes ?G)
        \<and> n_id (g_nodes ?G ! l_source e) = source (l_originalData e)
        \<and> n_id (g_nodes ?G ! l_target e) = target (l_originalData e)"
    using preprocessData_link_ends by blast
  have c0: "get_or_zero (nodeDegrees (raw_links raw)) k = link_ends (raw_links raw) k"
    by (rule nodeDegrees_link_ends)
  from c0 c1 c2 c3 c4 c5 show ?thesis by blast
qed

theorem truncation_top_by_degree_witness:
  "maxNodes small_config < length (raw_nodes example_raw)
   \<and> length (g_nodes (preprocessData small_config no_draw example_raw)) = 3
   \<and> map n_id (g_nodes (preprocessData small_config no_draw example_raw)) = [1, 2, 3]
   \<and> map l_originalData (g_links (preprocessData small_config no_draw example_raw))
       = map raw_link_of [(1, 2), (1, 3), (2, 3)]"
proof -
  have a: "maxNodes small_config < length (raw_nodes example_raw)"
    by (simp add: small_config_def example_raw_def)
  have ids: "map n_id (g_nodes (preprocessData small_config no_draw example_raw)) = [1, 2, 3]"
    by (simp add: pp_simps small_config_def)
  then have "n_id ` set (g_nodes (preprocessData small_config no_draw example_raw)) = {1, 2, 3}"
    by (simp flip: set_map)
  with truncation_top_by_degree [OF a, of no_draw]
  have "length (g_nodes (preprocessData small_config no_draw example_raw)) = maxNodes small_config"
    and "map l_originalData (g_links (preprocessData small_config no_draw example_raw))
       = filter (\<lambda>l. source l \<in> {1, 2, 3} \<and> target l \<in> {1, 2, 3}) (raw_links example_raw)"
    by simp_all
  with a ids show ?thesis
    by (simp add: small_config_def example_raw_def raw_link_of_def)
qed

text \<open>
  C1 as stated fails when a raw link joins an id to itself: with nodes 1 and 2, links
  (1,9) and (2,2) and room for one node, each node has one incident raw link, so the
  ranking by incident links keeps node 1, the first in input order; the code counts the
  link (2,2) twice and keeps node 2.
\<close>

theorem truncation_self_link_counterexample:
  "maxNodes one_config < length (raw_nodes tie_raw)
   \<and> map raw_id (raw_nodes tie_raw) = [1, 2]
   \<and> length (filter (touches 1) (raw_links tie_raw)) = 1
   \<and> length (filter (touches 2) (raw_links tie_raw)) = 1
   \<and> get_or_zero (nodeDegrees (raw_links tie_raw)) 1 = 1
   \<and> get_or_zero (nodeDegrees (raw_links tie_raw)) 2 = 2
   \<and> map n_id (g_nodes (preprocessData one_config no_draw tie_raw)) = [2]"
  by (simp add: pp_simps tie_raw_def one_config_def touches_def)

lemma ends_at_Cons:
  "ends_at (e # ls) i = (if l_source e = i then 1 else 0) + (if l_target e = i then 1 else 0) + ends_at ls i"
  by (simp add: ends_at_def)

lemma others_Cons:
  "others (e # ls) i = (if l_source e = i then {l_target e} else {}) \<union> (if l_target e = i then {l_source e} else {}) \<union> others ls i"
  by (auto simp: others_def)

lemma addNeighbor_nth:
  "i < length ns \<Longrightarrow> addNeighbor a b ns ! i = (if i = a then (ns ! i)\<lparr>n_neighbors := insert b (n_neighbors (ns ! i))\<rparr> else ns ! i)"
  by (simp add: addNeighbor_def)

lemma incDegree_nth:
  "i < length ns \<Longrightarrow> incDegree a ns ! i = (if i = a then (ns ! i)\<lparr>n_degree := n_degree (ns ! i) + 1\<rparr> else ns ! i)"
  by (simp add: incDegree_def)

lemma addNeighbor_length [simp]: "length (addNeighbor a b ns) = length ns"
  by (simp add: addNeighbor_def)

lemma incDegree_length [simp]: "length (incDegree a ns) = length ns"
  by (simp add: incDegree_def)

lemma connect_degree:
  "i < length ns \<Longrightarrow>
     n_degree (connect s t ns ! i) = n_degree (ns ! i) + (if s = i then 1 else 0) + (if t = i then 1 else 0)"
  by (simp add: connect_def addNeighbor_nth incDegree_nth)

lemma connect_neighbors:
  "i < length ns \<Longrightarrow>
     n_neighbors (connect s t ns ! i)
       = (if s = i then {t} else {}) \<union> (if t = i then {s} else {}) \<union> n_neighbors (ns ! i)"
  by (auto simp: connect_def addNeighbor_nth incDegree_nth)

lemma processLinks_degree:
  "processLinks m ns ls = (ns', out) \<Longrightarrow> i < length ns \<Longrightarrow>
     n_degree (ns' ! i) = n_degree (ns ! i) + ends_at out i"
proof (induction ls arbitrary: ns ns' out)
  case Nil
  then show ?case by (simp add: ends_at_def)
next
  case (Cons l ls)
  show ?case
  proof (cases "m (source l)")
    case None
    with Cons show ?thesis by simp
  next
    case s: (Some s)
    show ?thesis
    proof (cases "m (target l)")
      case None
      with s Cons show ?thesis by simp
    next
      case t: (Some t)
      obtain ns1 out1 where r: "processLinks m (connect s t ns) ls = (ns1, out1)"
        by (cases "processLinks m (connect s t ns) ls")
      with s t Cons.prems have o: "out = \<lparr>l_source = s, l_target = t, l_originalData = l\<rparr> # out1" and n: "ns' = ns1"
        by simp_all
      have "n_degree (ns1 ! i) = n_degree (connect s t ns ! i) + ends_at out1 i"
        using Cons.IH [OF r] Cons.prems(2) by simp
      then show ?thesis
        using Cons.prems(2) by (simp add: o n connect_degree ends_at_Cons)
    qed
  qed
qed

lemma processLinks_neighbors:
  "processLinks m ns ls = (ns', out) \<Longrightarrow> i < length ns \<Longrightarrow>
     n_neighbors (ns' ! i) = n_neighbors (ns ! i) \<union> others out i"
proof (induction ls arbitrary: ns ns' out)
  case Nil
  then show ?case by (simp add: others_def)
next
  case (Cons l ls)
  show ?case
  proof (cases "m (source l)")
    case None
    with Cons show ?thesis by simp
  next
    case s: (Some s)
    show ?thesis
    proof (cases "m (target l)")
      case None
      with s Cons show ?thesis by simp
    next
      case t: (Some t)
      obtain ns1 out1 where r: "processLinks m (connect s t ns) ls = (ns1, out1)"
        by (cases "processLinks m (connect s t ns) ls")
      with s t Cons.prems have o: "out = \<lparr>l_source = s, l_target = t, l_originalData = l\<rparr> # out1" and n: "ns' = ns1"
        by simp_all
      have "n_neighbors (ns1 ! i) = n_neighbors (connect s t ns ! i) \<union> others out1 i"
        using Cons.IH [OF r] Cons.prems(2) by simp
      then show ?thesis
        using Cons.prems(2) by (simp add: o n connect_neighbors others_Cons Un_ac)
    qed
  qed
qed

lemma processedNodes_fresh:
  "i < length ns \<Longrightarrow> n_degree (processedNodes cfg rnd ns ! i) = 0 \<and> n_neighbors (processedNodes cfg rnd ns ! i) = {}"
  by (simp add: processedNodes_def processedNode_def enumerate_eq_zip split_def)

lemma preprocessData_degree:
  assumes "i < length (g_nodes (preprocessData cfg rnd raw))"
  shows "n_degree (g_nodes (preprocessData cfg rnd raw) ! i) = ends_at (g_links (preprocessData cfg rnd raw)) i"
    and "n_neighbors (g_nodes (preprocessData cfg rnd raw) ! i) = others (g_links (preprocessData cfg rnd raw)) i"
proof -
  define raw' where "raw' = truncate_raw (maxNodes cfg) raw"
  define ps where "ps = processedNodes cfg rnd (raw_nodes raw')"
  from preprocessData_cases [OF raw'_def ps_def] obtain ns ls
    where p: "processLinks (nodeById ps) ps (raw_links raw') = (ns, ls)"
      and n: "g_nodes (preprocessData cfg rnd raw) = map (setRadius cfg) ns"
      and l: "g_links (preprocessData cfg rnd raw) = ls" by blast
  have len: "length ns = length ps" "length ps = length (raw_nodes raw')"
    using processLinks_frame [OF p] by (simp_all add: ps_def processedNodes_def)
  with assms n have i: "i < length ps" "i < length ns" "i < length (raw_nodes raw')" by simp_all
  have fresh: "n_degree (ps ! i) = 0" "n_neighbors (ps ! i) = {}"
    using processedNodes_fresh [OF i(3)] by (simp_all add: ps_def)
  show "n_degree (g_nodes (preprocessData cfg rnd raw) ! i) = ends_at (g_links (preprocessData cfg rnd raw)) i"
    using processLinks_degree [OF p i(1)] i(2) by (simp add: n l fresh setRadius_def)
  show "n_neighbors (g_nodes (preprocessData cfg rnd raw) ! i) = others (g_links (preprocessData cfg rnd raw)) i"
    using processLinks_neighbors [OF p i(1)] i(2) by (simp add: n l fresh setRadius_def)
qed

lemma finite_others [simp]: "finite (others ls i)"
  by (simp add: others_def)

lemma others_joins: "k \<in> others ls i \<Longrightarrow> {i, k} \<in> (\<lambda>e. {l_source e, l_target e}) ` set ls"
proof -
  assume "k \<in> others ls i"
  then obtain e where e: "e \<in> set ls" and "(l_source e = i \<and> l_target e = k) \<or> (l_target e = i \<and> l_source e = k)"
    by (auto simp: others_def)
  then have "{i, k} = {l_source e, l_target e}"
    by auto
  with e show ?thesis by blast
qed

lemma card_others:
  "\<forall>e \<in> set ls. l_source e \<noteq> l_target e \<Longrightarrow> distinct (map (\<lambda>e. {l_source e, l_target e}) ls) \<Longrightarrow>
     card (others ls i) = ends_at ls i"
proof (induction ls)
  case Nil
  show ?case by (simp add: others_def ends_at_def)
next
  case (Cons e ls)
  then have ih: "card (others ls i) = ends_at ls i"
    and ne: "l_source e \<noteq> l_target e"
    and new: "{l_source e, l_target e} \<notin> (\<lambda>e. {l_source e, l_target e}) ` set ls" by simp_all
  show ?case
  proof (cases "l_source e = i")
    case True
    then have "l_target e \<notin> others ls i"
      using others_joins [of "l_target e" ls i] new by auto
    with True ne show ?thesis
      by (simp add: others_Cons ends_at_Cons ih)
  next
    case False
    show ?thesis
    proof (cases "l_target e = i")
      case True
      then have "l_source e \<notin> others ls i"
        using others_joins [of "l_source e" ls i] new by (auto simp: insert_commute)
      with True False show ?thesis
        by (simp add: others_Cons ends_at_Cons ih)
    next
      case f: False
      with False show ?thesis
        by (simp add: others_Cons ends_at_Cons ih)
    qed
  qed
qed

lemma truncate_raw_filter:
  "filter (\<lambda>l. source l \<in> raw_id ` set (raw_nodes (truncate_raw mx raw))
               \<and> target l \<in> raw_id ` set (raw_nodes (truncate_raw mx raw)))
     (raw_links (truncate_raw mx raw))
   = filter (\<lambda>l. source l \<in> raw_id ` set (raw_nodes (truncate_raw mx raw))
               \<and> target l \<in> raw_id ` set (raw_nodes (truncate_raw mx raw)))
     (raw_links raw)"
  by (simp add: truncate_raw_def Let_def)

lemma preprocessData_retained:
  "map l_originalData (g_links (preprocessData cfg rnd raw))
     = filter (\<lambda>l. source l \<in> n_id ` set (g_nodes (preprocessData cfg rnd raw))
                  \<and> target l \<in> n_id ` set (g_nodes (preprocessData cfg rnd raw)))
         (raw_links raw)"
proof -
  have "set (map n_id (g_nodes (preprocessData cfg rnd raw)))
          = set (map raw_id (raw_nodes (truncate_raw (maxNodes cfg) raw)))"
    by (simp only: preprocessData_ids)
  then have ids: "n_id ` set (g_nodes (preprocessData cfg rnd raw))
          = raw_id ` set (raw_nodes (truncate_raw (maxNodes cfg) raw))"
    by (simp only: set_map)
  show ?thesis
    unfolding preprocessData_links ids by (rule truncate_raw_filter)
qed

lemma built_links_simple:
  assumes "\<forall>l \<in> set (raw_links raw). source l \<noteq> target l"
    and "distinct (map link_joins (raw_links raw))"
  shows "\<forall>e \<in> set (g_links (preprocessData cfg rnd raw)). l_source e \<noteq> l_target e"
    and "distinct (map (\<lambda>e. {l_source e, l_target e}) (g_links (preprocessData cfg rnd raw)))"
proof -
  let ?G = "preprocessData cfg rnd raw"
  let ?idf = "\<lambda>i. n_id (g_nodes ?G ! i)"
  have sub: "set (map l_originalData (g_links ?G)) \<subseteq> set (raw_links raw)"
    unfolding preprocessData_retained by auto
  show "\<forall>e \<in> set (g_links ?G). l_source e \<noteq> l_target e"
  proof
    fix e assume e: "e \<in> set (g_links ?G)"
    then have "l_originalData e \<in> set (raw_links raw)"
      using sub by auto
    with assms(1) have "source (l_originalData e) \<noteq> target (l_originalData e)" by blast
    with preprocessData_link_ends [OF e] show "l_source e \<noteq> l_target e"
      by metis
  qed
  have "distinct (map link_joins (map l_originalData (g_links ?G)))"
    unfolding preprocessData_retained using assms(2) by (rule distinct_map_filter)
  moreover have "map link_joins (map l_originalData (g_links ?G))
      = map (\<lambda>S. ?idf ` S) (map (\<lambda>e. {l_source e, l_target e}) (g_links ?G))"
    using preprocessData_link_ends [of _ cfg rnd raw] by (simp add: link_joins_def)
  ultimately show "distinct (map (\<lambda>e. {l_source e, l_target e}) (g_links ?G))"
    by (simp only: distinct_map)
qed

text \<open>
  C2, as the code has it. The built links are the raw links whose two ends are ids of built
  nodes. The degree of a built node is the number of built links it is the source of plus
  the number it is the target of, so a link from a node to itself counts twice; its
  neighbour set holds the other ends of those links. When no raw link joins an id to
  itself and no two raw links join the same two ids, in either direction, the size of the
  neighbour set equals the degree.
\<close>

theorem degree_counts_link_ends:
  assumes "i < length (g_nodes (preprocessData cfg rnd raw))"
  shows "map l_originalData (g_links (preprocessData cfg rnd raw))
           = filter (\<lambda>l. source l \<in> n_id ` set (g_nodes (preprocessData cfg rnd raw))
                        \<and> target l \<in> n_id ` set (g_nodes (preprocessData cfg rnd raw)))
               (raw_links raw)
    \<and> n_degree (g_nodes (preprocessData cfg rnd raw) ! i)
        = length (filter (\<lambda>e. l_source e = i) (g_links (preprocessData cfg rnd raw)))
          + length (filter (\<lambda>e. l_target e = i) (g_links (preprocessData cfg rnd raw)))
    \<and> n_neighbors (g_nodes (preprocessData cfg rnd raw) ! i)
        = l_target ` {e \<in> set (g_links (preprocessData cfg rnd raw)). l_source e = i}
          \<union> l_source ` {e \<in> set (g_links (preprocessData cfg rnd raw)). l_target e = i}
    \<and> ((\<forall>l \<in> set (raw_links raw). source l \<noteq> target l) \<and> distinct (map link_joins (raw_links raw))
         \<longrightarrow> card (n_neighbors (g_nodes (preprocessData cfg rnd raw) ! i))
               = n_degree (g_nodes (preprocessData cfg rnd raw) ! i))"
proof -
  let ?G = "preprocessData cfg rnd raw"
  have d: "n_degree (g_nodes ?G ! i) = ends_at (g_links ?G) i"
    and n: "n_neighbors (g_nodes ?G ! i) = others (g_links ?G) i"
    using preprocessData_degree [OF assms] by simp_all
  have "card (others (g_links ?G) i) = ends_at (g_links ?G) i"
    if "\<forall>l \<in> set (raw_links raw). source l \<noteq> target l" "distinct (map link_joins (raw_links raw))"
    using built_links_simple [OF that, of cfg rnd] by (rule card_others)
  then show ?thesis
    using preprocessData_retained [of cfg rnd raw] d n
    by (simp add: ends_at_def others_def)
qed

theorem degree_counts_link_ends_witness:
  "0 < length (g_nodes (preprocessData example_config no_draw example_raw))
   \<and> list_all (\<lambda>l. source l \<noteq> target l) (raw_links example_raw)
   \<and> distinct (map link_joins (raw_links example_raw))
   \<and> n_degree (g_nodes (preprocessData example_config no_draw example_raw) ! 0) = 3
   \<and> card (n_neighbors (g_nodes (preprocessData example_config no_draw example_raw) ! 0)) = 3"
proof -
  have a: "0 < length (g_nodes (preprocessData example_config no_draw example_raw))"
    by (simp add: preprocess_example example_graph_def)
  have b: "\<forall>l \<in> set (raw_links example_raw). source l \<noteq> target l"
    by (simp add: example_raw_def raw_link_of_def)
  have c: "distinct (map link_joins (raw_links example_raw))"
    by (simp add: example_raw_def raw_link_of_def link_joins_def doubleton_eq_iff)
  have d: "n_degree (g_nodes (preprocessData example_config no_draw example_raw) ! 0) = 3"
    by (simp add: preprocess_example example_graph_def example_node_def)
  from degree_counts_link_ends [OF a] b c
  have "card (n_neighbors (g_nodes (preprocessData example_config no_draw example_raw) ! 0))
          = n_degree (g_nodes (preprocessData example_config no_draw example_raw) ! 0)"
    by blast
  with a b c d show ?thesis
    by (simp add: list_all_iff)
qed

text \<open>
  C2 as stated fails on a single link from node 1 to itself: one link is incident to the
  node and no source/target pair is repeated, yet the degree is 2 and the neighbour set
  has one member.
\<close>

theorem degree_incident_links_counterexample:
  "length (raw_links loop_raw) = 1
   \<and> distinct (map link_pair (raw_links loop_raw))
   \<and> length (filter (incident 0) (g_links (preprocessData example_config no_draw loop_raw))) = 1
   \<and> n_degree (g_nodes (preprocessData example_config no_draw loop_raw) ! 0) = 2
   \<and> card (n_neighbors (g_nodes (preprocessData example_config no_draw loop_raw) ! 0)) = 1"
  by (simp add: pp_simps loop_raw_def incident_def link_pair_def)

section \<open>The degree filter\<close>

lemma preprocessData_links_closed: "links_closed (preprocessData cfg rnd raw)"
  unfolding links_closed_def using preprocessData_link_ends by blast

lemma init_data [simp]: "data (init cfg rnd raw) = preprocessData cfg rnd raw"
  by (simp add: init_def Let_def)

lemma filterByDegree_filteredData:
  "filteredData (filterByDegree d st) =
     \<lparr>fd_nodes = filter (\<lambda>i. int (degree_of st i) \<le> d) [0..<length (g_nodes (data st))],
      fd_links = filter (\<lambda>l. int (degree_of st (l_source l)) \<le> d \<and> int (degree_of st (l_target l)) \<le> d)
                   (g_links (data st))\<rparr>"
  by (simp add: filterByDegree_def updateVisualization_def)

lemma filterByDegree_data [simp]: "data (filterByDegree d st) = data st"
  by (simp add: filterByDegree_def updateVisualization_def)

lemma filterByDegree_nodes:
  "set (fd_nodes (filteredData (filterByDegree d st)))
     = {i. i < length (g_nodes (data st)) \<and> int (n_degree (g_nodes (data st) ! i)) \<le> d}"
  by (auto simp: filterByDegree_filteredData degree_of_def)

lemma filterByDegree_links:
  assumes "links_closed (data st)"
  shows "set (fd_links (filteredData (filterByDegree d st)))
     = {l \<in> set (g_links (data st)).
          l_source l \<in> set (fd_nodes (filteredData (filterByDegree d st)))
        \<and> l_target l \<in> set (fd_nodes (filteredData (filterByDegree d st)))}"
  using assms unfolding filterByDegree_nodes
  by (auto simp: filterByDegree_filteredData degree_of_def links_closed_def)

lemma example_degrees:
  "map n_degree (g_nodes (preprocessData example_config rnd example_raw)) = [3, 2, 2, 1, 0]"
  "map n_id (g_nodes (preprocessData example_config rnd example_raw)) = [1, 2, 3, 4, 5]"
  "map (\<lambda>l. (l_source l, l_target l)) (g_links (preprocessData example_config rnd example_raw)) = [(0, 1), (0, 2), (0, 3), (1, 2)]"
  by (simp_all add: pp_simps)

text \<open>
  C3. \<open>filterByDegree d\<close> makes visible the nodes of the full graph whose degree is at
  most \<open>d\<close> and the links of the full graph whose two ends are among them; a larger
  threshold shows at least as much, and the full graph is left as it is. On the graph built
  from nodes 1 to 5 and links (1,2), (1,3), (1,4), (2,3) with \<open>maxNodes = 5\<close> the
  degrees are 3, 2, 2, 1, 0, and the threshold 2 leaves nodes 2, 3, 4, 5 and the link
  (2,3).
\<close>

theorem filterByDegree_visible:
  assumes "links_closed (data st)"
  shows "set (fd_nodes (filteredData (filterByDegree d st)))
           = {i. i < length (g_nodes (data st)) \<and> int (n_degree (g_nodes (data st) ! i)) \<le> d}
    \<and> set (fd_links (filteredData (filterByDegree d st)))
        = {l \<in> set (g_links (data st)).
             l_source l \<in> set (fd_nodes (filteredData (filterByDegree d st)))
           \<and> l_target l \<in> set (fd_nodes (filteredData (filterByDegree d st)))}
    \<and> (d \<le> d' \<longrightarrow>
          set (fd_nodes (filteredData (filterByDegree d st)))
            \<subseteq> set (fd_nodes (filteredData (filterByDegree d' st)))
        \<and> set (fd_links (filteredData (filterByDegree d st)))
            \<subseteq> set (fd_links (filteredData (filterByDegree d' st))))
    \<and> data (filterByDegree d st) = data st
    \<and> map n_id (g_nodes (data (init example_config rnd example_raw))) = [1, 2, 3, 4, 5]
    \<and> map n_degree (g_nodes (data (init example_config rnd example_raw))) = [3, 2, 2, 1, 0]
    \<and> map (id_of (init example_config rnd example_raw))
          (fd_nodes (filteredData (filterByDegree 2 (init example_config rnd example_raw))))
        = [2, 3, 4, 5]
    \<and> map (link_ids (init example_config rnd example_raw))
          (fd_links (filteredData (filterByDegree 2 (init example_config rnd example_raw))))
        = [(2, 3)]"
proof -
  have mono: "set (fd_nodes (filteredData (filterByDegree d st)))
            \<subseteq> set (fd_nodes (filteredData (filterByDegree d' st)))
        \<and> set (fd_links (filteredData (filterByDegree d st)))
            \<subseteq> set (fd_links (filteredData (filterByDegree d' st)))" if "d \<le> d'"
    using that by (auto simp: filterByDegree_filteredData)
  have ex1: "map n_id (g_nodes (data (init example_config rnd example_raw))) = [1, 2, 3, 4, 5]"
    and ex2: "map n_degree (g_nodes (data (init example_config rnd example_raw))) = [3, 2, 2, 1, 0]"
    by (simp_all add: example_degrees)
  have ex3: "map (id_of (init example_config rnd example_raw))
          (fd_nodes (filteredData (filterByDegree 2 (init example_config rnd example_raw))))
        = [2, 3, 4, 5]"
    by (simp add: filterByDegree_filteredData degree_of_def id_of_def pp_simps)
  have ex4: "map (link_ids (init example_config rnd example_raw))
          (fd_links (filteredData (filterByDegree 2 (init example_config rnd example_raw))))
        = [(2, 3)]"
    by (simp add: filterByDegree_filteredData degree_of_def id_of_def link_ids_def pp_simps)
  show ?thesis
    using filterByDegree_nodes [of d st] filterByDegree_links [OF assms, of d] mono ex1 ex2 ex3 ex4
    by simp
qed

theorem filterByDegree_visible_witness:
  "links_closed (data (init example_config no_draw example_raw))
   \<and> (2::int) \<le> 3
   \<and> set (fd_nodes (filteredData (filterByDegree 2 (init example_config no_draw example_raw))))
       = {1, 2, 3, 4}
   \<and> set (fd_nodes (filteredData (filterByDegree 2 (init example_config no_draw example_raw))))
       \<subseteq> set (fd_nodes (filteredData (filterByDegree 3 (init example_config no_draw example_raw))))"
proof -
  have a: "links_closed (data (init example_config no_draw example_raw))"
    by (simp add: preprocessData_links_closed)
  have b: "set (fd_nodes (filteredData (filterByDegree 2 (init example_config no_draw example_raw))))
       = {1, 2, 3, 4}"
    by (simp add: filterByDegree_filteredData degree_of_def pp_simps eval_nat_numeral)
  have c: "(2::int) \<le> 3" by simp
  from c filterByDegree_visible [OF a, of 2 3 no_draw]
  have "set (fd_nodes (filteredData (filterByDegree 2 (init example_config no_draw example_raw))))
       \<subseteq> set (fd_nodes (filteredData (filterByDegree 3 (init example_config no_draw example_raw))))"
    by blast
  with a b show ?thesis by simp
qed

section \<open>Evaluation of the example states\<close>

lemma init_example:
  "init example_config no_draw example_raw =
     \<lparr>config = example_config, data = example_graph,
      filteredData = \<lparr>fd_nodes = [0, 1, 2, 3, 4], fd_links = g_links example_graph\<rparr>,
      currentHighlighted = None, isPaused = False,
      simulation = \<lparr>sim_nodes = [0, 1, 2, 3, 4], sim_links = g_links example_graph,
        sim_charge = - 30, sim_distance = 80, sim_alpha = 3 / 10, sim_alphaDecay = 2 / 100,
        sim_running = True\<rparr>,
      nodeGroup = map new_node_elem [0, 1, 2, 3, 4],
      linkGroup = map new_link_elem (g_links example_graph)\<rparr>"
  by (simp add: init_def Let_def preprocess_example startSimulation_def)
     (simp add: example_graph_def example_config_def default_config_def upt_rec eval_nat_numeral)

lemma filtered_example_eval:
  "filtered_example =
     \<lparr>config = example_config, data = example_graph,
      filteredData = \<lparr>fd_nodes = [1, 2, 3, 4], fd_links = [example_link 1 2]\<rparr>,
      currentHighlighted = None, isPaused = False,
      simulation = \<lparr>sim_nodes = [1, 2, 3, 4], sim_links = [example_link 1 2],
        sim_charge = - 30, sim_distance = 80, sim_alpha = 1, sim_alphaDecay = 2 / 100,
        sim_running = True\<rparr>,
      nodeGroup = map new_node_elem [1, 2, 3, 4],
      linkGroup = [new_link_elem (example_link 1 2)]\<rparr>"
  unfolding filtered_example_def init_example
  by (simp add: filterByDegree_def updateVisualization_def join_elems_def degree_of_def
      example_graph_def example_node_def example_link_def new_node_elem_def new_link_elem_def upt_rec eval_nat_numeral)

lemma toString_digits: "toString 1 = ''1''" "toString 2 = ''2''" "toString 3 = ''3''"
  "toString 4 = ''4''" "toString 5 = ''5''"
  by (simp_all add: toString_def)

lemma focused_example_eval:
  "focused_example =
     filtered_example\<lparr>currentHighlighted := Some 1,
       nodeGroup := [(new_node_elem 1)\<lparr>ne_highlighted := True\<rparr>,
                     (new_node_elem 2)\<lparr>ne_neighbor := True\<rparr>, new_node_elem 3, new_node_elem 4],
       linkGroup := [(new_link_elem (example_link 1 2))\<lparr>le_highlighted := True\<rparr>]\<rparr>"
  unfolding focused_example_def filtered_example_eval
  by (simp add: searchNode_def highlightNode_def clearHighlight_def id_of_def toString_digits
      example_graph_def example_node_def example_link_def new_node_elem_def new_link_elem_def)

section \<open>Search and highlight\<close>








section \<open>Display mode and simulation restart\<close>

lemma searched_example_eval:
  "searched_example =
     (init example_config no_draw example_raw)\<lparr>currentHighlighted := Some 0,
       nodeGroup := [(new_node_elem 0)\<lparr>ne_highlighted := True\<rparr>,
                     (new_node_elem 1)\<lparr>ne_neighbor := True\<rparr>,
                     (new_node_elem 2)\<lparr>ne_neighbor := True\<rparr>,
                     (new_node_elem 3)\<lparr>ne_neighbor := True\<rparr>, new_node_elem 4],
       linkGroup := [(new_link_elem (example_link 0 1))\<lparr>le_highlighted := True\<rparr>,
                     (new_link_elem (example_link 0 2))\<lparr>le_highlighted := True\<rparr>,
                     (new_link_elem (example_link 0 3))\<lparr>le_highlighted := True\<rparr>,
                     new_link_elem (example_link 1 2)]\<rparr>"
  unfolding searched_example_def init_example
  by (simp add: searchNode_def highlightNode_def clearHighlight_def id_of_def toString_digits
      example_graph_def example_node_def example_link_def new_node_elem_def new_link_elem_def)

lemma shown_filter:
  "set (map d (filter (\<lambda>e. \<not> hid e) (map (\<lambda>e. upd e (P (d e))) xs))) = {i \<in> d ` set xs. \<not> P i}"
  if "\<And>e b. d (upd e b) = d e" "\<And>e b. hid (upd e b) = b"
proof -
  have "filter (\<lambda>e. \<not> hid e) (map (\<lambda>e. upd e (P (d e))) xs)
          = map (\<lambda>e. upd e (P (d e))) (filter (\<lambda>e. \<not> P (d e)) xs)"
    by (simp add: filter_map comp_def that)
  then have "map d (filter (\<lambda>e. \<not> hid e) (map (\<lambda>e. upd e (P (d e))) xs))
          = map d (filter (\<lambda>e. \<not> P (d e)) xs)"
    by (simp add: comp_def that)
  then show ?thesis by auto
qed

lemma shown_nodes_showNeighborsOnly:
  assumes "currentHighlighted st = Some h"
  shows "shown_nodes (showNeighborsOnly st)
       = {i \<in> ne_datum ` set (nodeGroup st).
            id_of st i = id_of st h \<or> i \<in> n_neighbors (g_nodes (data st) ! h)}"
proof -
  have "shown_nodes (showNeighborsOnly st)
      = set (map ne_datum (filter (\<lambda>e. \<not> ne_hidden e)
          (map (\<lambda>e. e\<lparr>ne_hidden := (id_of st (ne_datum e) \<noteq> id_of st h
                  \<and> ne_datum e \<notin> n_neighbors (g_nodes (data st) ! h))\<rparr>) (nodeGroup st))))"
    using assms by (simp add: shown_nodes_def showNeighborsOnly_def)
  also have "\<dots> = {i \<in> ne_datum ` set (nodeGroup st).
        \<not> (id_of st i \<noteq> id_of st h \<and> i \<notin> n_neighbors (g_nodes (data st) ! h))}"
    by (rule shown_filter [where upd = "\<lambda>e b. e\<lparr>ne_hidden := b\<rparr>"]) simp_all
  finally show ?thesis by simp
qed

lemma shown_links_showNeighborsOnly:
  assumes "currentHighlighted st = Some h"
  shows "shown_links (showNeighborsOnly st)
       = {l \<in> le_datum ` set (linkGroup st).
            id_of st (l_source l) = id_of st h \<or> id_of st (l_target l) = id_of st h}"
proof -
  have "shown_links (showNeighborsOnly st)
      = set (map le_datum (filter (\<lambda>e. \<not> le_hidden e)
          (map (\<lambda>e. e\<lparr>le_hidden := (id_of st (l_source (le_datum e)) \<noteq> id_of st h
                  \<and> id_of st (l_target (le_datum e)) \<noteq> id_of st h)\<rparr>) (linkGroup st))))"
    using assms by (simp add: shown_links_def showNeighborsOnly_def)
  also have "\<dots> = {l \<in> le_datum ` set (linkGroup st).
        \<not> (id_of st (l_source l) \<noteq> id_of st h \<and> id_of st (l_target l) \<noteq> id_of st h)}"
    by (rule shown_filter [where upd = "\<lambda>e b. e\<lparr>le_hidden := b\<rparr>"]) simp_all
  finally show ?thesis by simp
qed

lemma showNeighborsOnly_frame:
  "data (showNeighborsOnly st) = data st"
  "filteredData (showNeighborsOnly st) = filteredData st"
  "simulation (showNeighborsOnly st) = simulation st"
  "currentHighlighted (showNeighborsOnly st) = currentHighlighted st"
  "isPaused (showNeighborsOnly st) = isPaused st"
  "map ne_datum (nodeGroup (showNeighborsOnly st)) = map ne_datum (nodeGroup st)"
  "map le_datum (linkGroup (showNeighborsOnly st)) = map le_datum (linkGroup st)"
  by (simp_all add: showNeighborsOnly_def comp_def split: option.splits)






text \<open>
  C6, as the code has it. With no node highlighted the mode \<open>neighbors\<close> returns the state
  as it is. With a node highlighted it leaves without the \<open>hidden\<close> class exactly those
  displayed node elements whose datum carries the highlighted id or lies in the highlighted
  node's neighbour set, and exactly those displayed link elements with an end carrying the
  highlighted id, where the displayed elements are the ones bound to the degree-filtered
  subgraph; nothing else changes.
\<close>

theorem showNeighborsOnly_visible:
  "(currentHighlighted st = None \<longrightarrow> setDisplayMode ''neighbors'' st = Inr st)
   \<and> (currentHighlighted st = Some h \<longrightarrow>
         setDisplayMode ''neighbors'' st = Inr (showNeighborsOnly st)
       \<and> shown_nodes (showNeighborsOnly st)
           = {i \<in> ne_datum ` set (nodeGroup st).
                id_of st i = id_of st h \<or> i \<in> n_neighbors (g_nodes (data st) ! h)}
       \<and> shown_links (showNeighborsOnly st)
           = {l \<in> le_datum ` set (linkGroup st).
                id_of st (l_source l) = id_of st h \<or> id_of st (l_target l) = id_of st h}
       \<and> map ne_datum (nodeGroup (showNeighborsOnly st)) = map ne_datum (nodeGroup st)
       \<and> map le_datum (linkGroup (showNeighborsOnly st)) = map le_datum (linkGroup st)
       \<and> data (showNeighborsOnly st) = data st
       \<and> filteredData (showNeighborsOnly st) = filteredData st
       \<and> simulation (showNeighborsOnly st) = simulation st
       \<and> currentHighlighted (showNeighborsOnly st) = currentHighlighted st
       \<and> isPaused (showNeighborsOnly st) = isPaused st)"
proof -
  have "setDisplayMode ''neighbors'' st = Inr st" if "currentHighlighted st = None"
    using that by (simp add: setDisplayMode_def showNeighborsOnly_def)
  moreover have "setDisplayMode ''neighbors'' st = Inr (showNeighborsOnly st)"
    by (simp add: setDisplayMode_def)
  ultimately show ?thesis
    using shown_nodes_showNeighborsOnly [of st h] shown_links_showNeighborsOnly [of st h]
    by (simp add: showNeighborsOnly_frame)
qed

theorem showNeighborsOnly_visible_witness:
  "currentHighlighted searched_example = Some 0
   \<and> currentHighlighted filtered_example = None
   \<and> setDisplayMode ''neighbors'' filtered_example = Inr filtered_example
   \<and> shown_nodes (showNeighborsOnly searched_example) = {0, 1, 2, 3}"
proof -
  have a: "currentHighlighted searched_example = Some 0"
    unfolding searched_example_eval by simp
  have b: "currentHighlighted filtered_example = None"
    unfolding filtered_example_eval by simp
  have c: "{i \<in> ne_datum ` set (nodeGroup searched_example).
             id_of searched_example i = id_of searched_example 0
           \<or> i \<in> n_neighbors (g_nodes (data searched_example) ! 0)} = {0, 1, 2, 3}"
    unfolding searched_example_eval init_example
    by (auto simp: id_of_def example_graph_def example_node_def new_node_elem_def eval_nat_numeral)
  from showNeighborsOnly_visible [of filtered_example] b
  have d: "setDisplayMode ''neighbors'' filtered_example = Inr filtered_example"
    by blast
  from showNeighborsOnly_visible [of searched_example 0] a c
  have "shown_nodes (showNeighborsOnly searched_example) = {0, 1, 2, 3}"
    by simp
  with a b d show ?thesis by simp
qed

text \<open>
  C6 as stated fails once the degree filter has removed a neighbour: after the threshold 2
  and a search for node 2, the mode \<open>neighbors\<close> shows nodes 2 and 3 and the link (2,3),
  while the neighbour set of node 2 also holds node 1 and the link (1,2) also ends at
  node 2.
\<close>

theorem neighbors_mode_counterexample:
  "currentHighlighted focused_example = Some 1
   \<and> setDisplayMode ''neighbors'' focused_example = Inr (showNeighborsOnly focused_example)
   \<and> shown_nodes (showNeighborsOnly focused_example) = {1, 2}
   \<and> insert 1 (n_neighbors (g_nodes (data focused_example) ! 1)) = {0, 1, 2}
   \<and> shown_links (showNeighborsOnly focused_example) = {example_link 1 2}
   \<and> filter (incident 1) (g_links (data focused_example)) = [example_link 0 1, example_link 1 2]"
  unfolding focused_example_eval filtered_example_eval
  by (simp add: setDisplayMode_def showNeighborsOnly_def shown_nodes_def shown_links_def id_of_def
      incident_def example_graph_def example_node_def example_link_def new_node_elem_def
      new_link_elem_def eval_nat_numeral insert_commute)

section \<open>Layout import, force parameters and layout export\<close>

lemma moveNode_frame:
  "filteredData (moveNode i px py pfx pfy st) = filteredData st"
  "simulation (moveNode i px py pfx pfy st) = simulation st"
  by (simp_all add: moveNode_def)

lemma moveNode_id_of: "id_of (moveNode i px py pfx pfy st) j = id_of st j"
proof (cases "i = j")
  case False
  then show ?thesis by (simp add: id_of_def moveNode_def)
next
  case True
  show ?thesis
  proof (cases "i < length (g_nodes (data st))")
    case True
    with \<open>i = j\<close> show ?thesis by (simp add: id_of_def moveNode_def place_def)
  next
    case False
    then have "length (g_nodes (data st)) \<le> i" by simp
    then show ?thesis by (simp add: id_of_def moveNode_def list_update_beyond)
  qed
qed

lemma names_visible_moveNode:
  "names_visible (moveNode i px py pfx pfy st) = names_visible st"
  by (rule ext) (simp add: names_visible_def moveNode_frame moveNode_id_of split: json_entry.splits)

lemma find_names_visible:
  "names_visible st (JEntry k px py pfx pfy)
     \<longleftrightarrow> find (\<lambda>i. Some (id_of st i) = k) (fd_nodes (filteredData st)) \<noteq> None"
  by (auto simp: names_visible_def find_None_iff)

lemma applyEntries_known:
  "applyEntries (filter (names_visible st) es) st = applyEntries es st"
proof (induction es arbitrary: st)
  case Nil
  show ?case by simp
next
  case (Cons e es)
  show ?case
  proof (cases e)
    case JNull
    have "names_visible st JNull"
      by (simp add: names_visible_def)
    with JNull Cons.IH [of st] show ?thesis by simp
  next
    case (JEntry k px py pfx pfy)
    show ?thesis
    proof (cases "find (\<lambda>i. Some (id_of st i) = k) (fd_nodes (filteredData st))")
      case None
      with JEntry have "\<not> names_visible st e"
        by (simp add: find_names_visible)
      with None JEntry Cons.IH [of st] show ?thesis by simp
    next
      case (Some i)
      with JEntry have "names_visible st e"
        by (simp add: find_names_visible)
      with Some JEntry Cons.IH [of "moveNode i px py pfx pfy st"] show ?thesis
        by (simp add: names_visible_moveNode)
    qed
  qed
qed

lemma applyEntries_none_visible:
  "fd_nodes (filteredData st) = [] \<Longrightarrow> applyEntries es st = (None, st)"
proof (induction es)
  case Nil
  show ?case by simp
next
  case (Cons e es)
  then show ?case by (cases e) simp_all
qed

text \<open>
  C8, as the code has it. Import entries that name no visible node are ignored: dropping
  them from the payload changes neither the outcome nor the resulting state. A payload is
  rejected with the alert and no change of state when it fails before the first entry is
  applied: the text does not parse; it parses to \<open>null\<close>; or its \<open>links\<close> is truthy and its
  \<open>nodes\<close> is truthy without being an array, or is an array whose first entry is \<open>null\<close>
  while some node is visible. No file, a missing \<open>nodes\<close> and a missing \<open>links\<close> change
  nothing and raise no alert. An array of entries that name no visible node raises no alert
  and moves no node; it re-warms the simulation to 0.1, and so does every array, \<open>null\<close>
  entries included, when no node is visible.
\<close>

theorem importLayout_rejections:
  "importLayout (Some (Parses (Layout (NodesArray es) True))) st
     = importLayout (Some (Parses (Layout (NodesArray (filter (names_visible st) es)) True))) st
   \<and> importLayout (Some (Parses (Layout (NodesArray []) True))) st
     = (False, st\<lparr>simulation := (simulation st)\<lparr>sim_alpha := 1 / 10, sim_running := True\<rparr>\<rparr>)
   \<and> importLayout (Some Unparsable) st = (True, st)
   \<and> importLayout (Some (Parses LayoutNull)) st = (True, st)
   \<and> importLayout (Some (Parses (Layout NodesNotArray True))) st = (True, st)
   \<and> (fd_nodes (filteredData st) \<noteq> [] \<longrightarrow>
        importLayout (Some (Parses (Layout (NodesArray (JNull # es)) True))) st = (True, st))
   \<and> (fd_nodes (filteredData st) = [] \<longrightarrow>
        importLayout (Some (Parses (Layout (NodesArray es) True))) st
          = (False, st\<lparr>simulation := (simulation st)\<lparr>sim_alpha := 1 / 10, sim_running := True\<rparr>\<rparr>))
   \<and> importLayout None st = (False, st)
   \<and> importLayout (Some (Parses (Layout NodesMissing lk))) st = (False, st)
   \<and> importLayout (Some (Parses (Layout ns False))) st = (False, st)"
proof -
  have "importLayout (Some (Parses (Layout ns False))) st = (False, st)"
    by (cases ns) (simp_all add: importLayout_def)
  moreover have "importLayout (Some (Parses (Layout (NodesArray es) True))) st
          = (False, st\<lparr>simulation := (simulation st)\<lparr>sim_alpha := 1 / 10, sim_running := True\<rparr>\<rparr>)"
    if "fd_nodes (filteredData st) = []"
    using applyEntries_none_visible [OF that, of es] by (simp add: importLayout_def)
  ultimately show ?thesis
    by (simp add: importLayout_def applyEntries_known)
qed

lemma empty_example_eval: "fd_nodes (filteredData empty_example) = []"
  unfolding empty_example_def init_example
  by (simp add: filterByDegree_filteredData)

theorem importLayout_rejections_witness:
  "fd_nodes (filteredData (init example_config no_draw example_raw)) \<noteq> []
   \<and> importLayout (Some null_payload) (init example_config no_draw example_raw)
       = (True, init example_config no_draw example_raw)
   \<and> fd_nodes (filteredData empty_example) = []
   \<and> fst (importLayout (Some null_payload) empty_example) = False
   \<and> data (snd (importLayout (Some null_payload) empty_example)) = data empty_example"
proof -
  let ?st = "init example_config no_draw example_raw"
  have a: "fd_nodes (filteredData ?st) \<noteq> []"
    unfolding init_example by simp
  have b: "fd_nodes (filteredData empty_example) = []"
    by (rule empty_example_eval)
  from importLayout_rejections [of "[]" ?st] a
  have c: "importLayout (Some (Parses (Layout (NodesArray [JNull]) True))) ?st = (True, ?st)"
    by blast
  from importLayout_rejections [of "[JNull]" empty_example] b
  have d: "importLayout (Some (Parses (Layout (NodesArray [JNull]) True))) empty_example
      = (False, empty_example\<lparr>simulation := (simulation empty_example)
                                 \<lparr>sim_alpha := 1 / 10, sim_running := True\<rparr>\<rparr>)"
    by blast
  from a b c d show ?thesis
    by (simp add: null_payload_def)
qed

text \<open>
  C8 as stated fails: the import of a payload whose second entry is \<open>null\<close> raises the
  alert, and node 1 has already been moved by the first entry.
\<close>

theorem import_partial_counterexample:
  "fst (importLayout (Some broken_payload) (init example_config no_draw example_raw)) = True
   \<and> n_x (g_nodes (data (init example_config no_draw example_raw)) ! 0) = Num 0
   \<and> n_x (g_nodes (data (snd (importLayout (Some broken_payload)
             (init example_config no_draw example_raw)))) ! 0) = Num 10"
  unfolding init_example
  by (simp add: importLayout_def broken_payload_def moveNode_def place_def id_of_def
      example_graph_def example_node_def)

text \<open>
  C9. \<open>updateForceParameters\<close> leaves the node objects, and with them every position and
  pin, as they are, together with the visible subgraph, the simulation's node array and
  everything outside the simulation; it installs the new charge strength and link distance,
  the link force over the visible links, sets the cooling parameter to 0.3 and restarts the
  timer.
\<close>

theorem updateForceParameters_frame:
  "data (updateForceParameters chargeValue linkValue st) = data st
   \<and> map n_x (g_nodes (data (updateForceParameters chargeValue linkValue st))) = map n_x (g_nodes (data st))
   \<and> map n_y (g_nodes (data (updateForceParameters chargeValue linkValue st))) = map n_y (g_nodes (data st))
   \<and> map n_fx (g_nodes (data (updateForceParameters chargeValue linkValue st))) = map n_fx (g_nodes (data st))
   \<and> map n_fy (g_nodes (data (updateForceParameters chargeValue linkValue st))) = map n_fy (g_nodes (data st))
   \<and> filteredData (updateForceParameters chargeValue linkValue st) = filteredData st
   \<and> sim_nodes (simulation (updateForceParameters chargeValue linkValue st)) = sim_nodes (simulation st)
   \<and> sim_links (simulation (updateForceParameters chargeValue linkValue st)) = fd_links (filteredData st)
   \<and> sim_charge (simulation (updateForceParameters chargeValue linkValue st)) = chargeValue
   \<and> sim_distance (simulation (updateForceParameters chargeValue linkValue st)) = linkValue
   \<and> sim_alpha (simulation (updateForceParameters chargeValue linkValue st)) = 3 / 10
   \<and> sim_alphaDecay (simulation (updateForceParameters chargeValue linkValue st)) = sim_alphaDecay (simulation st)
   \<and> sim_running (simulation (updateForceParameters chargeValue linkValue st))
   \<and> currentHighlighted (updateForceParameters chargeValue linkValue st) = currentHighlighted st
   \<and> isPaused (updateForceParameters chargeValue linkValue st) = isPaused st
   \<and> nodeGroup (updateForceParameters chargeValue linkValue st) = nodeGroup st
   \<and> linkGroup (updateForceParameters chargeValue linkValue st) = linkGroup st
   \<and> config (updateForceParameters chargeValue linkValue st) = config st"
  by (simp add: updateForceParameters_def)

lemma id_of_filterByDegree [simp]: "id_of (filterByDegree d st) = id_of st"
  by (simp add: id_of_def fun_eq_iff)

lemma distinct_ids_index:
  assumes "distinct (map n_id (g_nodes (data st)))"
    and "i < length (g_nodes (data st))" and "j < length (g_nodes (data st))"
    and "id_of st i = id_of st j"
  shows "i = j"
  using assms nth_eq_iff_index_eq [of "map n_id (g_nodes (data st))" i j]
  by (simp add: id_of_def)

lemma export_nodes_absent:
  assumes "distinct (map n_id (g_nodes (data st)))"
    and "set (fd_nodes (filteredData st)) \<subseteq> {..<length (g_nodes (data st))}"
    and "i < length (g_nodes (data st))" and "i \<notin> set (fd_nodes (filteredData st))"
  shows "id_of st i \<notin> set (map ln_id (lay_nodes (exportLayout now st)))"
proof
  assume "id_of st i \<in> set (map ln_id (lay_nodes (exportLayout now st)))"
  then obtain j where j: "j \<in> set (fd_nodes (filteredData st))" and "id_of st i = id_of st j"
    by (auto simp: exportLayout_def node_entry_def id_of_def)
  moreover from j assms(2) have "j < length (g_nodes (data st))" by auto
  ultimately have "i = j"
    using assms(1,3) by (auto intro: distinct_ids_index)
  with j assms(4) show False by simp
qed

lemma export_links_absent:
  assumes "distinct (map n_id (g_nodes (data st)))" and "links_closed (data st)"
    and "l \<in> set (g_links (data st))"
    and "l \<notin> set (fd_links (filteredData (filterByDegree d st)))"
  shows "link_ids st l \<notin> set (lay_links (exportLayout now (filterByDegree d st)))"
proof
  assume "link_ids st l \<in> set (lay_links (exportLayout now (filterByDegree d st)))"
  then obtain l' where l': "l' \<in> set (fd_links (filteredData (filterByDegree d st)))"
    and eq: "id_of st (l_source l) = id_of st (l_source l')" "id_of st (l_target l) = id_of st (l_target l')"
    by (auto simp: exportLayout_def link_ids_def)
  from l' have in': "l' \<in> set (g_links (data st))"
    and deg: "int (degree_of st (l_source l')) \<le> d" "int (degree_of st (l_target l')) \<le> d"
    by (simp_all add: filterByDegree_filteredData)
  from assms(2,3) in' have r: "l_source l < length (g_nodes (data st))" "l_target l < length (g_nodes (data st))"
    "l_source l' < length (g_nodes (data st))" "l_target l' < length (g_nodes (data st))"
    by (auto simp: links_closed_def)
  have "l_source l = l_source l'" "l_target l = l_target l'"
    using distinct_ids_index [OF assms(1) r(1) r(3) eq(1)] distinct_ids_index [OF assms(1) r(2) r(4) eq(2)]
    by simp_all
  with deg assms(3) have "l \<in> set (fd_links (filteredData (filterByDegree d st)))"
    by (simp add: filterByDegree_filteredData)
  with assms(4) show False by simp
qed

text \<open>
  C10. The snapshot of \<open>exportLayout\<close> is taken from \<open>filteredData\<close>: one entry per visible
  node with its id, \<open>x\<close>, \<open>y\<close>, \<open>fx\<close> and \<open>fy\<close>, one entry per visible link with the ids of
  its two ends, and the two counts. With distinct node ids, a node of the full graph that is
  not visible has no entry under its id; and after a degree threshold, a link of the full
  graph that is not visible has no entry under its pair of ids.
\<close>

theorem exportLayout_visible:
  "lay_nodes (exportLayout now st)
     = map (\<lambda>i. \<lparr>ln_id = n_id (g_nodes (data st) ! i), ln_x = n_x (g_nodes (data st) ! i),
                  ln_y = n_y (g_nodes (data st) ! i), ln_fx = n_fx (g_nodes (data st) ! i),
                  ln_fy = n_fy (g_nodes (data st) ! i)\<rparr>) (fd_nodes (filteredData st))
   \<and> lay_links (exportLayout now st) = map (link_ids st) (fd_links (filteredData st))
   \<and> lay_nodeCount (exportLayout now st) = length (fd_nodes (filteredData st))
   \<and> lay_linkCount (exportLayout now st) = length (fd_links (filteredData st))
   \<and> (distinct (map n_id (g_nodes (data st)))
        \<and> set (fd_nodes (filteredData st)) \<subseteq> {..<length (g_nodes (data st))}
        \<and> i < length (g_nodes (data st)) \<and> i \<notin> set (fd_nodes (filteredData st))
       \<longrightarrow> id_of st i \<notin> set (map ln_id (lay_nodes (exportLayout now st))))
   \<and> (distinct (map n_id (g_nodes (data st))) \<and> links_closed (data st)
        \<and> l \<in> set (g_links (data st)) \<and> l \<notin> set (fd_links (filteredData (filterByDegree d st)))
       \<longrightarrow> link_ids st l \<notin> set (lay_links (exportLayout now (filterByDegree d st))))"
  using export_nodes_absent [of st i now] export_links_absent [of st l d now]
  by (simp add: exportLayout_def node_entry_def link_ids_def)

theorem exportLayout_visible_witness:
  "distinct (map n_id (g_nodes (data filtered_example)))
   \<and> links_closed (data (init example_config no_draw example_raw))
   \<and> set (fd_nodes (filteredData filtered_example)) \<subseteq> {..<length (g_nodes (data filtered_example))}
   \<and> 0 < length (g_nodes (data filtered_example))
   \<and> 0 \<notin> set (fd_nodes (filteredData filtered_example))
   \<and> example_link 0 1 \<in> set (g_links (data (init example_config no_draw example_raw)))
   \<and> example_link 0 1 \<notin> set (fd_links (filteredData filtered_example))
   \<and> map ln_id (lay_nodes (exportLayout ''t'' filtered_example)) = [2, 3, 4, 5]
   \<and> 1 \<notin> set (map ln_id (lay_nodes (exportLayout ''t'' filtered_example)))
   \<and> (1, 2) \<notin> set (lay_links (exportLayout ''t'' filtered_example))"
proof -
  let ?st = "init example_config no_draw example_raw"
  have a: "distinct (map n_id (g_nodes (data filtered_example)))"
    unfolding filtered_example_eval by (simp add: example_graph_def example_node_def)
  have a': "distinct (map n_id (g_nodes (data ?st)))"
    using a by (simp add: filtered_example_def)
  have b: "links_closed (data ?st)"
    by (simp add: preprocessData_links_closed)
  have c: "set (fd_nodes (filteredData filtered_example)) \<subseteq> {..<length (g_nodes (data filtered_example))}"
    unfolding filtered_example_eval by (simp add: example_graph_def)
  have d: "0 < length (g_nodes (data filtered_example))" "0 \<notin> set (fd_nodes (filteredData filtered_example))"
    unfolding filtered_example_eval by (simp_all add: example_graph_def)
  have e: "example_link 0 1 \<in> set (g_links (data ?st))"
    unfolding init_example by (simp add: example_graph_def)
  have f: "example_link 0 1 \<notin> set (fd_links (filteredData filtered_example))"
    unfolding filtered_example_eval by (simp add: example_link_def)
  have g: "id_of filtered_example 0 = 1" "link_ids ?st (example_link 0 1) = (1, 2)"
    unfolding filtered_example_eval init_example
    by (simp_all add: id_of_def link_ids_def example_graph_def example_node_def example_link_def)
  have h: "map ln_id (lay_nodes (exportLayout ''t'' filtered_example)) = [2, 3, 4, 5]"
    unfolding filtered_example_eval
    by (simp add: exportLayout_def node_entry_def example_graph_def example_node_def)
  from exportLayout_visible [of "''t''" filtered_example 0] a c d
  have "id_of filtered_example 0 \<notin> set (map ln_id (lay_nodes (exportLayout ''t'' filtered_example)))"
    by blast
  with g(1) have i: "1 \<notin> set (map ln_id (lay_nodes (exportLayout ''t'' filtered_example)))"
    by metis
  have f': "example_link 0 1 \<notin> set (fd_links (filteredData (filterByDegree 2 ?st)))"
    using f unfolding filtered_example_def .
  from exportLayout_visible [of "''t''" ?st _ "example_link 0 1" 2] a' b e f'
  have "link_ids ?st (example_link 0 1) \<notin> set (lay_links (exportLayout ''t'' (filterByDegree 2 ?st)))"
    by blast
  with g(2) have j: "(1, 2) \<notin> set (lay_links (exportLayout ''t'' filtered_example))"
    unfolding filtered_example_def by metis
  from a b c d e f h i j show ?thesis by blast
qed

end
